theory Spec2Isabelle
  imports Complex_Main "HOL-Library.Word" "HOL-Library.Log_Nat"
begin

section \<open>JavaScript values used by the data processor\<close>

subsection \<open>Strings\<close>

text \<open>
  A JavaScript string is a finite sequence of 16-bit code units. String literals of the
  source are written \<open>js ''...''\<close>: every character of such a literal is ASCII and so
  is its own code unit.
\<close>

type_synonym code_unit = "16 word"
type_synonym js_string = "code_unit list"

definition js :: "string \<Rightarrow> js_string" where
  "js s = map (\<lambda>c. of_nat (of_char c)) s"

text \<open>
  \<open>WhiteSpace\<close> and \<open>LineTerminator\<close> of ECMAScript: the code units stripped by
  \<open>String.prototype.trim\<close> and skipped at the start of the argument by \<open>parseFloat\<close>
  and \<open>parseInt\<close>.
\<close>

definition isWhiteSpace :: "code_unit \<Rightarrow> bool" where
  "isWhiteSpace c =
     (c = 0x0009 \<or> c = 0x000A \<or> c = 0x000B \<or> c = 0x000C \<or> c = 0x000D \<or> c = 0x0020 \<or>
      c = 0x00A0 \<or> c = 0x1680 \<or> (0x2000 \<le> c \<and> c \<le> 0x200A) \<or> c = 0x2028 \<or>
      c = 0x2029 \<or> c = 0x202F \<or> c = 0x205F \<or> c = 0x3000 \<or> c = 0xFEFF)"

definition trimStart :: "js_string \<Rightarrow> js_string" where
  "trimStart s = dropWhile isWhiteSpace s"

definition trim :: "js_string \<Rightarrow> js_string" where
  "trim s = rev (dropWhile isWhiteSpace (rev (dropWhile isWhiteSpace s)))"

definition isDigit :: "code_unit \<Rightarrow> bool" where
  "isDigit c = (0x30 \<le> c \<and> c \<le> 0x39)"

definition digitVal :: "code_unit \<Rightarrow> int" where
  "digitVal c = uint c - 48"

definition digitsVal :: "js_string \<Rightarrow> int" where
  "digitsVal ds = foldl (\<lambda>n c. 10 * n + digitVal c) 0 ds"

text \<open>\<open>s.split(sep)\<close> for a separator of one code unit.\<close>

fun jsSplit :: "code_unit \<Rightarrow> js_string \<Rightarrow> js_string list" where
  "jsSplit sep [] = [[]]"
| "jsSplit sep (c # cs) =
     (if c = sep then [] # jsSplit sep cs
      else (case jsSplit sep cs of p # ps \<Rightarrow> (c # p) # ps | [] \<Rightarrow> [[c]]))"

text \<open>\<open>s.substring(start)\<close> for a start index within the range of a \<open>nat\<close>.\<close>

definition substring :: "js_string \<Rightarrow> nat \<Rightarrow> js_string" where
  "substring s start = drop start s"

text \<open>The decimal rendering of an array index, as a template literal interpolates it.\<close>

fun indexToString :: "nat \<Rightarrow> js_string" where
  "indexToString n =
     (if n < 10 then [of_nat (48 + n)]
      else indexToString (n div 10) @ [of_nat (48 + n mod 10)])"

text \<open>\<open>arr[i]\<close>: reading outside the array gives \<open>undefined\<close>, here \<open>None\<close>.\<close>

definition arrayGet :: "'a list \<Rightarrow> int \<Rightarrow> 'a option" where
  "arrayGet arr i = (if 0 \<le> i \<and> i < int (length arr) then Some (arr ! nat i) else None)"

subsection \<open>Numbers\<close>

text \<open>
  A JavaScript number is an IEEE 754 binary64 value: a finite value (\<open>Num r\<close>, with
  \<open>Num 0\<close> the positive zero), the negative zero, the two infinities, or NaN. The
  finite values that arise are the reals \<open>m * 2 ^ e\<close> with \<open>\<bar>m\<bar> < 2 ^ 53\<close> and
  \<open>- 1074 \<le> e \<le> 971\<close>; every arithmetic result is rounded to the nearest of them,
  ties to the even significand (\<open>round64\<close>).
\<close>

datatype js_number = Num real | NegZero | PosInf | NegInf | NaN

definition pow2 :: "int \<Rightarrow> real" where
  "pow2 e = (if 0 \<le> e then 2 ^ nat e else 1 / 2 ^ nat (- e))"

definition pow10 :: "int \<Rightarrow> real" where
  "pow10 e = (if 0 \<le> e then 10 ^ nat e else 1 / 10 ^ nat (- e))"

text \<open>\<open>ilog2 a\<close> is the exponent \<open>e\<close> with \<open>2 ^ e \<le> a < 2 ^ (e + 1)\<close>, for \<open>a > 0\<close>.\<close>

definition ilog2 :: "real \<Rightarrow> int" where
  "ilog2 a = (if 1 \<le> a then bitlen \<lfloor>a\<rfloor> - 1 else - bitlen (\<lceil>1 / a\<rceil> - 1))"

definition round_half_even :: "real \<Rightarrow> int" where
  "round_half_even r =
     (let f = \<lfloor>r\<rfloor>; d = r - of_int f
      in if d < 1 / 2 then f
         else if 1 / 2 < d then f + 1
         else if even f then f else f + 1)"

text \<open>
  Rounding of a non-zero real to binary64. The quantum \<open>q\<close> is the unit in the last
  place at the magnitude of \<open>x\<close>, and \<open>2 ^ (- 1074)\<close> in the subnormal range; a
  magnitude that rounds to \<open>2 ^ 1024\<close> or more overflows to an infinity, one that rounds
  to \<open>0\<close> underflows to the zero of the same sign.
\<close>

definition round64 :: "real \<Rightarrow> js_number" where
  "round64 x =
     (let a = \<bar>x\<bar>;
          e = max (ilog2 a) (- 1022);
          q = pow2 (e - 52);
          m = round_half_even (a / q)
      in if 1023 < e \<or> (e = 1023 \<and> m = 2 ^ 53) then (if x < 0 then NegInf else PosInf)
         else if m = 0 then (if x < 0 then NegZero else Num 0)
         else Num (if x < 0 then - (of_int m * q) else of_int m * q))"

definition isNaN :: "js_number \<Rightarrow> bool" where
  "isNaN x = (x = NaN)"

definition isInf :: "js_number \<Rightarrow> bool" where
  "isInf x = (x = PosInf \<or> x = NegInf)"

definition isZero :: "js_number \<Rightarrow> bool" where
  "isZero x = (x = Num 0 \<or> x = NegZero)"

definition isFinite :: "js_number \<Rightarrow> bool" where
  "isFinite x = (\<not> isNaN x \<and> \<not> isInf x)"

fun signBit :: "js_number \<Rightarrow> bool" where
  "signBit (Num r) = (r < 0)"
| "signBit NegZero = True"
| "signBit PosInf = False"
| "signBit NegInf = True"
| "signBit NaN = False"

fun val :: "js_number \<Rightarrow> real" where
  "val (Num r) = r"
| "val _ = 0"

definition signedInf :: "bool \<Rightarrow> js_number" where
  "signedInf neg = (if neg then NegInf else PosInf)"

definition signedZero :: "bool \<Rightarrow> js_number" where
  "signedZero neg = (if neg then NegZero else Num 0)"

fun jneg :: "js_number \<Rightarrow> js_number" where
  "jneg (Num r) = (if r = 0 then NegZero else Num (- r))"
| "jneg NegZero = Num 0"
| "jneg PosInf = NegInf"
| "jneg NegInf = PosInf"
| "jneg NaN = NaN"

text \<open>\<open>x + y\<close> (\<open>Number::add\<close>).\<close>

definition jadd :: "js_number \<Rightarrow> js_number \<Rightarrow> js_number" where
  "jadd x y =
     (if isNaN x \<or> isNaN y then NaN
      else if isInf x \<and> isInf y then (if x = y then x else NaN)
      else if isInf x then x
      else if isInf y then y
      else if x = NegZero \<and> y = NegZero then NegZero
      else if val x + val y = 0 then Num 0
      else round64 (val x + val y))"

text \<open>\<open>x - y\<close> (\<open>Number::subtract\<close>) is \<open>x + (- y)\<close>.\<close>

definition jsub :: "js_number \<Rightarrow> js_number \<Rightarrow> js_number" where
  "jsub x y = jadd x (jneg y)"

text \<open>\<open>x * y\<close> (\<open>Number::multiply\<close>).\<close>

definition jmul :: "js_number \<Rightarrow> js_number \<Rightarrow> js_number" where
  "jmul x y =
     (if isNaN x \<or> isNaN y then NaN
      else if (isInf x \<and> isZero y) \<or> (isZero x \<and> isInf y) then NaN
      else if isInf x \<or> isInf y then signedInf (signBit x \<noteq> signBit y)
      else if isZero x \<or> isZero y then signedZero (signBit x \<noteq> signBit y)
      else round64 (val x * val y))"

text \<open>\<open>x / y\<close> (\<open>Number::divide\<close>).\<close>

definition jdiv :: "js_number \<Rightarrow> js_number \<Rightarrow> js_number" where
  "jdiv x y =
     (if isNaN x \<or> isNaN y then NaN
      else if isInf x then (if isInf y then NaN else signedInf (signBit x \<noteq> signBit y))
      else if isInf y then signedZero (signBit x \<noteq> signBit y)
      else if isZero x then (if isZero y then NaN else signedZero (signBit x \<noteq> signBit y))
      else if isZero y then signedInf (signBit x \<noteq> signBit y)
      else round64 (val x / val y))"

text \<open>\<open>x === y\<close> on numbers: NaN equals nothing, the two zeros equal each other.\<close>

definition strictEq :: "js_number \<Rightarrow> js_number \<Rightarrow> bool" where
  "strictEq x y = (\<not> isNaN x \<and> \<not> isNaN y \<and> (x = y \<or> (isZero x \<and> isZero y)))"

text \<open>\<open>x < y\<close> on numbers: false as soon as one side is NaN.\<close>

definition jlt :: "js_number \<Rightarrow> js_number \<Rightarrow> bool" where
  "jlt x y =
     (\<not> isNaN x \<and> \<not> isNaN y \<and>
      (if x = NegInf then y \<noteq> NegInf
       else if y = PosInf then x \<noteq> PosInf
       else if isInf x \<or> isInf y then False
       else val x < val y))"

definition jle :: "js_number \<Rightarrow> js_number \<Rightarrow> bool" where
  "jle x y = (\<not> isNaN x \<and> \<not> isNaN y \<and> \<not> jlt y x)"


subsection \<open>\<open>parseInt\<close> and \<open>parseFloat\<close>\<close>

text \<open>An optional sign in front of a numeric string: \<open>True\<close> for \<open>-\<close>.\<close>

fun stripSign :: "js_string \<Rightarrow> bool \<times> js_string" where
  "stripSign [] = (False, [])"
| "stripSign (c # cs) =
     (if c = 0x2D then (True, cs) else if c = 0x2B then (False, cs) else (False, c # cs))"

text \<open>
  \<open>parseInt(s, 10)\<close>: leading white space is skipped, then a sign, then the longest run
  of decimal digits is read; without a digit the result is NaN.
\<close>

definition parseInt :: "js_string \<Rightarrow> js_number" where
  "parseInt s =
     (let (neg, u) = stripSign (trimStart s);
          z = takeWhile isDigit u
      in if z = [] then NaN
         else if digitsVal z = 0 then signedZero neg
         else round64 (if neg then - of_int (digitsVal z) else of_int (digitsVal z)))"

text \<open>
  The longest prefix that is a \<open>StrDecimalLiteral\<close>: a sign, then \<open>Infinity\<close> or
  decimal digits with an optional fraction and an optional exponent. An exponent
  indicator that no digit follows is not part of the literal.
\<close>

datatype str_decimal = InfinityLit bool | DecimalLit bool js_string js_string int

definition scanExponent :: "js_string \<Rightarrow> int" where
  "scanExponent s =
     (case s of
        [] \<Rightarrow> 0
      | c # r \<Rightarrow>
          if c = 0x65 \<or> c = 0x45 then
            (let (neg, r') = stripSign r;
                 ds = takeWhile isDigit r'
             in if ds = [] then 0
                else if neg then - digitsVal ds else digitsVal ds)
          else 0)"

definition scanStrDecimalLiteral :: "js_string \<Rightarrow> str_decimal option" where
  "scanStrDecimalLiteral s =
     (let (neg, u) = stripSign s
      in if take 8 u = js ''Infinity'' then Some (InfinityLit neg)
         else
           (let ip = takeWhile isDigit u;
                r1 = dropWhile isDigit u;
                fp = (case r1 of [] \<Rightarrow> []
                      | c # r \<Rightarrow> if c = 0x2E then takeWhile isDigit r else []);
                r2 = (case r1 of [] \<Rightarrow> []
                      | c # r \<Rightarrow> if c = 0x2E then dropWhile isDigit r else r1)
            in if ip = [] \<and> fp = [] then None
               else Some (DecimalLit neg ip fp (scanExponent r2))))"

text \<open>
  The number a literal denotes: its mathematical value rounded to binary64. (ECMAScript
  lets an engine replace digits after the twentieth significant one by zeros; the engines
  in use round the exact value, which is what is modelled.)
\<close>

fun literalValue :: "str_decimal \<Rightarrow> js_number" where
  "literalValue (InfinityLit neg) = signedInf neg"
| "literalValue (DecimalLit neg ip fp e) =
     (let mv = of_int (digitsVal (ip @ fp)) * pow10 (e - int (length fp))
      in if mv = 0 then signedZero neg
         else round64 (if neg then - mv else mv))"

definition parseFloat :: "js_string \<Rightarrow> js_number" where
  "parseFloat s =
     (case scanStrDecimalLiteral (trimStart s) of
        None \<Rightarrow> NaN
      | Some l \<Rightarrow> literalValue l)"

text \<open>
  \<open>Array.prototype.sort\<close> with a comparison function. ECMAScript fixes the result
  for a consistent comparison function: the elements in ascending order of the
  comparison, elements that compare equal in their original order (the sort is stable).
  The model computes that order by insertion from the right: an element moves behind a
  later one only when the comparison of the two is positive. A comparison that is NaN
  counts as \<open>+0\<close>.
\<close>

definition sortCompare :: "('a \<Rightarrow> 'a \<Rightarrow> js_number) \<Rightarrow> 'a \<Rightarrow> 'a \<Rightarrow> js_number" where
  "sortCompare comparefn x y = (let v = comparefn x y in if isNaN v then Num 0 else v)"

fun insertSorted :: "('a \<Rightarrow> 'a \<Rightarrow> js_number) \<Rightarrow> 'a \<Rightarrow> 'a list \<Rightarrow> 'a list" where
  "insertSorted comparefn x [] = [x]"
| "insertSorted comparefn x (y # ys) =
     (if jlt (Num 0) (sortCompare comparefn x y) then y # insertSorted comparefn x ys
      else x # y # ys)"

definition arraySort :: "('a \<Rightarrow> 'a \<Rightarrow> js_number) \<Rightarrow> 'a list \<Rightarrow> 'a list" where
  "arraySort comparefn arr = foldr (insertSorted comparefn) arr []"

section \<open>The data processor (\<open>src/services/dataProcessor.ts\<close>)\<close>

subsection \<open>Rows\<close>

text \<open>
  \<open>RawDataRow\<close>: the fields of a parsed CSV line, prefixed \<open>raw_\<close> here. An optional
  field that is absent (\<open>undefined\<close>) is \<open>None\<close>.
\<close>

record RawDataRow =
  raw_Quarter :: js_string
  raw_Year :: js_string
  raw_Region :: "js_string option"
  raw_Product :: "js_string option"
  raw_Revenue :: js_string
  raw_COGS :: js_string
  raw_OPEX :: js_string
  raw_Non_Cash_Adjustments :: "js_string option"
  raw_Net_Income :: "js_string option"
  raw_Plan_Revenue :: "js_string option"
  raw_Plan_COGS :: "js_string option"
  raw_Plan_OPEX :: "js_string option"
  raw_Plan_Non_Cash_Adjustments :: "js_string option"
  raw_Plan_NetIncome :: "js_string option"

text \<open>
  \<open>ProcessedDataRow\<close>; \<open>number | null\<close> is \<open>js_number option\<close>, with \<open>None\<close> for
  \<open>null\<close>. The field \<open>id\<close> is \<open>rowId\<close> here, and \<open>plan_Non_Cash_Adjustments\<close>, which
  the processor always fills with a number, is a number.
\<close>

record ProcessedDataRow =
  rowId :: js_string
  Quarter :: js_string
  Year :: js_number
  quarterIndex :: js_number
  sortKey :: js_number
  Region :: js_string
  Product :: js_string
  Revenue :: js_number
  COGS :: js_number
  OPEX :: js_number
  Non_Cash_Adjustments :: js_number
  Net_Income :: js_number
  plan_Revenue :: "js_number option"
  plan_COGS :: "js_number option"
  plan_OPEX :: "js_number option"
  plan_Non_Cash_Adjustments :: js_number
  plan_NetIncome :: "js_number option"
  grossProfit :: js_number
  grossMargin :: js_number
  opexMargin :: js_number
  EBITDA :: js_number
  EBITDA_Margin :: js_number
  netMargin :: js_number
  qoqRevenueGrowth :: "js_number option"
  qoqNetIncomeGrowth :: "js_number option"
  yoyRevenueGrowth :: "js_number option"
  yoyNetIncomeGrowth :: "js_number option"
  revVarAbs :: "js_number option"
  revVarPerc :: "js_number option"
  cogsVarAbs :: "js_number option"
  cogsVarPerc :: "js_number option"
  opexVarAbs :: "js_number option"
  opexVarPerc :: "js_number option"
  ebitdaPlan :: "js_number option"
  ebitdaVarAbs :: "js_number option"
  ebitdaVarPerc :: "js_number option"
  netIncomeVarAbs :: "js_number option"
  netIncomeVarPerc :: "js_number option"

datatype js_error = Error js_string | TypeError


subsection \<open>\<open>parseQuarter\<close>\<close>

text \<open>The regular expression \<open>/^Q[1-4]-\d{4}$/\<close>.\<close>

definition matchesQuarter :: "js_string \<Rightarrow> bool" where
  "matchesQuarter s =
     (case s of
        [q, i, h, d1, d2, d3, d4] \<Rightarrow>
          q = 0x51 \<and> 0x31 \<le> i \<and> i \<le> 0x34 \<and> h = 0x2D \<and>
          isDigit d1 \<and> isDigit d2 \<and> isDigit d3 \<and> isDigit d4
      | _ \<Rightarrow> False)"

definition quarterError :: "js_string \<Rightarrow> js_error" where
  \<open>quarterError quarterStr =
     Error (js ''Invalid Quarter format: "'' @ quarterStr @
            js ''". Expected format is "Q1-2023".'')\<close>

text \<open>
  The result is the triple \<open>(year, quarterIndex, sortKey)\<close>. \<open>parts[0].substring(1)\<close>
  is a \<open>TypeError\<close> when \<open>parts[0]\<close> is \<open>undefined\<close>, and \<open>parseInt\<close> reads an
  \<open>undefined\<close> argument as the string \<open>undefined\<close>.
\<close>

definition parseQuarter :: "js_string \<Rightarrow> js_error + js_number \<times> js_number \<times> js_number" where
  "parseQuarter quarterStr =
     (if quarterStr = [] \<or> \<not> matchesQuarter quarterStr then Inl (quarterError quarterStr)
      else
        (let parts = jsSplit 0x2D quarterStr
         in case arrayGet parts 0 of
              None \<Rightarrow> Inl TypeError
            | Some p0 \<Rightarrow>
                (let qIndex = parseInt (substring p0 1);
                     year = parseInt (case arrayGet parts 1 of
                                        None \<Rightarrow> js ''undefined'' | Some p1 \<Rightarrow> p1)
                 in Inr (year, qIndex, jadd year (jdiv qIndex (Num 4))))))"

subsection \<open>\<open>safeParseFloat\<close>\<close>

definition safeParseFloat :: "js_string option \<Rightarrow> js_number option \<Rightarrow> js_number option" where
  "safeParseFloat v defaultValue =
     (case v of
        None \<Rightarrow> defaultValue
      | Some s \<Rightarrow>
          if trim s = [] then defaultValue
          else (let num = parseFloat s in if isNaN num then defaultValue else Some num))"

subsection \<open>\<open>processFinancialData\<close>\<close>

text \<open>\<open>v || d\<close> on an optional string: the empty string and \<open>undefined\<close> are falsy.\<close>

definition orDefault :: "js_string option \<Rightarrow> js_string \<Rightarrow> js_string" where
  "orDefault v d = (case v of None \<Rightarrow> d | Some s \<Rightarrow> if s = [] then d else s)"

text \<open>
  The callback of the first \<open>map\<close>: one raw row and its index to one processed row, or
  the error \<open>parseQuarter\<close> throws. A local constant of the source whose name is also a
  field of the row carries a prime. The non-null assertion \<open>!\<close> of the source is
  \<open>the\<close>: it is applied to calls of \<open>safeParseFloat\<close> with a number as default,
  which never return \<open>null\<close> (lemma \<open>safeParseFloat_number_default\<close>), and to an
  absolute variance in the branch where its plan value, and so the variance, is not
  \<open>null\<close>.
\<close>

definition normalizeRow :: "RawDataRow \<Rightarrow> nat \<Rightarrow> js_error + ProcessedDataRow" where
  "normalizeRow row index =
     (case parseQuarter (raw_Quarter row) of
        Inl e \<Rightarrow> Inl e
      | Inr (year, qIndex, sKey) \<Rightarrow>
         (let Revenue' = the (safeParseFloat (Some (raw_Revenue row)) (Some (Num 0)));
              COGS' = the (safeParseFloat (Some (raw_COGS row)) (Some (Num 0)));
              OPEX' = the (safeParseFloat (Some (raw_OPEX row)) (Some (Num 0)));
              Non_Cash_Adjustments' =
                the (safeParseFloat (raw_Non_Cash_Adjustments row) (Some (Num 0)));
              NetIncome = safeParseFloat (raw_Net_Income row) None;
              finalNetIncome =
                (case NetIncome of
                   None \<Rightarrow> jsub (jsub Revenue' COGS') OPEX'
                 | Some n \<Rightarrow> n);
              plan_Revenue' = safeParseFloat (raw_Plan_Revenue row) None;
              plan_COGS' = safeParseFloat (raw_Plan_COGS row) None;
              plan_OPEX' = safeParseFloat (raw_Plan_OPEX row) None;
              plan_Non_Cash_Adjustments' =
                the (safeParseFloat (raw_Plan_Non_Cash_Adjustments row)
                       (Some Non_Cash_Adjustments'));
              plan_NetIncomeRaw = safeParseFloat (raw_Plan_NetIncome row) None;
              plan_NetIncome' =
                (case (plan_NetIncomeRaw, plan_Revenue', plan_COGS', plan_OPEX') of
                   (None, Some pr, Some pc, Some po) \<Rightarrow> Some (jsub (jsub pr pc) po)
                 | _ \<Rightarrow> plan_NetIncomeRaw);
              grossProfit' = jsub Revenue' COGS';
              grossMargin' =
                (if \<not> strictEq Revenue' (Num 0)
                 then jmul (jdiv grossProfit' Revenue') (Num 100) else Num 0);
              opexMargin' =
                (if \<not> strictEq Revenue' (Num 0)
                 then jmul (jdiv OPEX' Revenue') (Num 100) else Num 0);
              EBITDA' = jadd (jsub (jsub Revenue' COGS') OPEX') Non_Cash_Adjustments';
              EBITDA_Margin' =
                (if \<not> strictEq Revenue' (Num 0)
                 then jmul (jdiv EBITDA' Revenue') (Num 100) else Num 0);
              netMargin' =
                (if \<not> strictEq Revenue' (Num 0)
                 then jmul (jdiv finalNetIncome Revenue') (Num 100) else Num 0);
              revVarAbs' =
                (case plan_Revenue' of None \<Rightarrow> None | Some p \<Rightarrow> Some (jsub Revenue' p));
              revVarPerc' =
                (case plan_Revenue' of
                   None \<Rightarrow> None
                 | Some p \<Rightarrow>
                     if \<not> strictEq p (Num 0)
                     then Some (jmul (jdiv (the revVarAbs') p) (Num 100)) else None);
              cogsVarAbs' =
                (case plan_COGS' of None \<Rightarrow> None | Some p \<Rightarrow> Some (jsub COGS' p));
              cogsVarPerc' =
                (case plan_COGS' of
                   None \<Rightarrow> None
                 | Some p \<Rightarrow>
                     if \<not> strictEq p (Num 0)
                     then Some (jmul (jdiv (the cogsVarAbs') p) (Num 100)) else None);
              opexVarAbs' =
                (case plan_OPEX' of None \<Rightarrow> None | Some p \<Rightarrow> Some (jsub OPEX' p));
              opexVarPerc' =
                (case plan_OPEX' of
                   None \<Rightarrow> None
                 | Some p \<Rightarrow>
                     if \<not> strictEq p (Num 0)
                     then Some (jmul (jdiv (the opexVarAbs') p) (Num 100)) else None);
              ebitdaPlan' =
                (case (plan_Revenue', plan_COGS', plan_OPEX') of
                   (Some pr, Some pc, Some po) \<Rightarrow>
                     Some (jadd (jsub (jsub pr pc) po) plan_Non_Cash_Adjustments')
                 | _ \<Rightarrow> None);
              ebitdaVarAbs' =
                (case ebitdaPlan' of None \<Rightarrow> None | Some p \<Rightarrow> Some (jsub EBITDA' p));
              ebitdaVarPerc' =
                (case ebitdaPlan' of
                   None \<Rightarrow> None
                 | Some p \<Rightarrow>
                     if \<not> strictEq p (Num 0)
                     then Some (jmul (jdiv (the ebitdaVarAbs') p) (Num 100)) else None);
              netIncomeVarAbs' =
                (case plan_NetIncome' of
                   None \<Rightarrow> None | Some p \<Rightarrow> Some (jsub finalNetIncome p));
              netIncomeVarPerc' =
                (case plan_NetIncome' of
                   None \<Rightarrow> None
                 | Some p \<Rightarrow>
                     if \<not> strictEq p (Num 0)
                     then Some (jmul (jdiv (the netIncomeVarAbs') p) (Num 100)) else None)
          in Inr \<lparr> rowId =
                     raw_Quarter row @ js ''-'' @ orDefault (raw_Region row) (js ''All'') @
                     js ''-'' @ orDefault (raw_Product row) (js ''All'') @ js ''-'' @
                     indexToString index,
                   Quarter = raw_Quarter row,
                   Year = year,
                   quarterIndex = qIndex,
                   sortKey = sKey,
                   Region = orDefault (raw_Region row) (js ''All''),
                   Product = orDefault (raw_Product row) (js ''All''),
                   Revenue = Revenue',
                   COGS = COGS',
                   OPEX = OPEX',
                   Non_Cash_Adjustments = Non_Cash_Adjustments',
                   Net_Income = finalNetIncome,
                   plan_Revenue = plan_Revenue',
                   plan_COGS = plan_COGS',
                   plan_OPEX = plan_OPEX',
                   plan_Non_Cash_Adjustments = plan_Non_Cash_Adjustments',
                   plan_NetIncome = plan_NetIncome',
                   grossProfit = grossProfit',
                   grossMargin = grossMargin',
                   opexMargin = opexMargin',
                   EBITDA = EBITDA',
                   EBITDA_Margin = EBITDA_Margin',
                   netMargin = netMargin',
                   qoqRevenueGrowth = None,
                   qoqNetIncomeGrowth = None,
                   yoyRevenueGrowth = None,
                   yoyNetIncomeGrowth = None,
                   revVarAbs = revVarAbs',
                   revVarPerc = revVarPerc',
                   cogsVarAbs = cogsVarAbs',
                   cogsVarPerc = cogsVarPerc',
                   opexVarAbs = opexVarAbs',
                   opexVarPerc = opexVarPerc',
                   ebitdaPlan = ebitdaPlan',
                   ebitdaVarAbs = ebitdaVarAbs',
                   ebitdaVarPerc = ebitdaVarPerc',
                   netIncomeVarAbs = netIncomeVarAbs',
                   netIncomeVarPerc = netIncomeVarPerc' \<rparr>))"

text \<open>
  \<open>rawData.map(callback)\<close> for a callback that may throw: the rows are processed in
  order, each with its index, and the first error ends the call.
\<close>

fun mapIndexed :: "('a \<Rightarrow> nat \<Rightarrow> 'e + 'b) \<Rightarrow> 'a list \<Rightarrow> nat \<Rightarrow> 'e + 'b list" where
  "mapIndexed f [] index = Inr []"
| "mapIndexed f (x # xs) index =
     (case f x index of
        Inl e \<Rightarrow> Inl e
      | Inr y \<Rightarrow>
          (case mapIndexed f xs (Suc index) of
             Inl e \<Rightarrow> Inl e
           | Inr ys \<Rightarrow> Inr (y # ys)))"

text \<open>The callback of the second \<open>map\<close>, over the sorted array \<open>arr\<close>.\<close>

definition enrichRow :: "ProcessedDataRow list \<Rightarrow> nat \<Rightarrow> ProcessedDataRow \<Rightarrow> ProcessedDataRow" where
  "enrichRow arr index currentRow =
     (let prevQuarter = arrayGet arr (int index - 1);
          qoqRevenueGrowth' =
            (case prevQuarter of
               None \<Rightarrow> None
             | Some p \<Rightarrow>
                 if \<not> strictEq (Revenue p) (Num 0)
                 then Some (jmul (jdiv (jsub (Revenue currentRow) (Revenue p)) (Revenue p))
                              (Num 100))
                 else None);
          qoqNetIncomeGrowth' =
            (case prevQuarter of
               None \<Rightarrow> None
             | Some p \<Rightarrow>
                 if \<not> strictEq (Net_Income p) (Num 0)
                 then Some (jmul (jdiv (jsub (Net_Income currentRow) (Net_Income p))
                                    (Net_Income p)) (Num 100))
                 else None);
          prevYearQuarter =
            find (\<lambda>d. strictEq (Year d) (jsub (Year currentRow) (Num 1)) \<and>
                       strictEq (quarterIndex d) (quarterIndex currentRow) \<and>
                       Region d = Region currentRow \<and>
                       Product d = Product currentRow) arr;
          yoyRevenueGrowth' =
            (case prevYearQuarter of
               None \<Rightarrow> None
             | Some p \<Rightarrow>
                 if \<not> strictEq (Revenue p) (Num 0)
                 then Some (jmul (jdiv (jsub (Revenue currentRow) (Revenue p)) (Revenue p))
                              (Num 100))
                 else None);
          yoyNetIncomeGrowth' =
            (case prevYearQuarter of
               None \<Rightarrow> None
             | Some p \<Rightarrow>
                 if \<not> strictEq (Net_Income p) (Num 0)
                 then Some (jmul (jdiv (jsub (Net_Income currentRow) (Net_Income p))
                                    (Net_Income p)) (Num 100))
                 else None)
      in currentRow \<lparr> qoqRevenueGrowth := qoqRevenueGrowth',
                       qoqNetIncomeGrowth := qoqNetIncomeGrowth',
                       yoyRevenueGrowth := yoyRevenueGrowth',
                       yoyNetIncomeGrowth := yoyNetIncomeGrowth' \<rparr>)"

definition processFinancialData :: "RawDataRow list \<Rightarrow> js_error + ProcessedDataRow list" where
  "processFinancialData rawData =
     (case mapIndexed normalizeRow rawData 0 of
        Inl e \<Rightarrow> Inl e
      | Inr dataWithMetrics \<Rightarrow>
          (let arr = arraySort (\<lambda>a b. jsub (sortKey a) (sortKey b)) dataWithMetrics
           in Inr (map (\<lambda>(index, currentRow). enrichRow arr index currentRow)
                     (enumerate 0 arr))))"

section \<open>Notions used in the statements\<close>

text \<open>
  The period fields of a row that \<open>parseQuarter\<close> accepted: a year from \<open>0\<close> to
  \<open>9999\<close>, a quarter from \<open>1\<close> to \<open>4\<close>, and the sort key \<open>year + quarter / 4\<close>,
  all of them exact in binary64.
\<close>

definition periodOK :: "ProcessedDataRow \<Rightarrow> bool" where
  "periodOK r \<longleftrightarrow>
     (\<exists>y q. 0 \<le> y \<and> y \<le> 9999 \<and> 1 \<le> q \<and> q \<le> 4 \<and>
        Year r = Num (of_int y) \<and> quarterIndex r = Num (of_int q) \<and>
        sortKey r = Num (of_int y + of_int q / 4))"

text \<open>A row with its four growth fields reset to \<open>null\<close>, as the first pass leaves them.\<close>

definition growthCleared :: "ProcessedDataRow \<Rightarrow> ProcessedDataRow" where
  "growthCleared r =
     r \<lparr> qoqRevenueGrowth := None, qoqNetIncomeGrowth := None,
         yoyRevenueGrowth := None, yoyNetIncomeGrowth := None \<rparr>"

text \<open>
  An input row for examples: the period label, the segment and the three required
  amounts; every optional amount is absent.
\<close>

definition exampleRow ::
  "string \<Rightarrow> string \<Rightarrow> string \<Rightarrow> string \<Rightarrow> string \<Rightarrow> string \<Rightarrow> RawDataRow" where
  "exampleRow quarter region product revenue cogs opex =
     \<lparr> raw_Quarter = js quarter, raw_Year = js (drop 3 quarter),
       raw_Region = Some (js region), raw_Product = Some (js product),
       raw_Revenue = js revenue, raw_COGS = js cogs, raw_OPEX = js opex,
       raw_Non_Cash_Adjustments = None, raw_Net_Income = None,
       raw_Plan_Revenue = None, raw_Plan_COGS = None, raw_Plan_OPEX = None,
       raw_Plan_Non_Cash_Adjustments = None, raw_Plan_NetIncome = None \<rparr>"

text \<open>A batch out of order, with two rows of the same period.\<close>

definition tiedBatch :: "RawDataRow list" where
  "tiedBatch =
     [exampleRow ''Q2-2023'' ''East'' ''Soap'' ''110'' ''40'' ''20'',
      exampleRow ''Q1-2023'' ''West'' ''Soap'' ''90'' ''40'' ''20'',
      exampleRow ''Q1-2023'' ''East'' ''Soap'' ''100'' ''40'' ''20'']"


text \<open>The number a string begins with, after leading white space, if it begins with one.\<close>

definition leadingNumber :: "js_string \<Rightarrow> js_number option" where
  "leadingNumber s = map_option literalValue (scanStrDecimalLiteral (trimStart s))"

text \<open>
  The number a raw field supplies: none when the field is absent, and none when its
  string is blank or does not begin with a number.
\<close>

definition suppliedNumber :: "js_string option \<Rightarrow> js_number option" where
  "suppliedNumber v = (case v of None \<Rightarrow> None | Some s \<Rightarrow> leadingNumber s)"

text \<open>The variance fields of one metric, given its actual and its plan value.\<close>

definition varianceOf ::
  "js_number \<Rightarrow> js_number option \<Rightarrow> js_number option \<Rightarrow> js_number option \<Rightarrow> bool" where
  "varianceOf actual plan varAbs varPerc =
     (case plan of
        None \<Rightarrow> varAbs = None \<and> varPerc = None
      | Some p \<Rightarrow>
          varAbs = Some (jsub actual p) \<and>
          varPerc =
            (if isZero p then None
             else Some (jmul (jdiv (jsub actual p) p) (Num 100))))"

text \<open>A margin: the numerator over the revenue, times 100.\<close>

definition marginOf :: "js_number \<Rightarrow> js_number \<Rightarrow> js_number" where
  "marginOf numerator revenue = jmul (jdiv numerator revenue) (Num 100)"

text \<open>A batch of one row with plan columns: a plan revenue of zero, no plan cost of goods.\<close>

definition planBatch :: "RawDataRow list" where
  "planBatch =
     [(exampleRow ''Q1-2023'' ''East'' ''Soap'' ''100'' ''40'' ''20'')
        \<lparr> raw_Plan_Revenue := Some (js ''0''), raw_Plan_OPEX := Some (js ''25'') \<rparr>]"

text \<open>The batch of one row with revenue 100, cost of goods 40 and operating expense 20.\<close>

definition singleBatch :: "RawDataRow list" where
  "singleBatch = [exampleRow ''Q1-2023'' ''East'' ''Soap'' ''100'' ''40'' ''20'']"

text \<open>A batch of one row with the three plan components, and an actual add-back of 5.\<close>

definition fullPlanBatch :: "RawDataRow list" where
  "fullPlanBatch =
     [(exampleRow ''Q1-2023'' ''East'' ''Soap'' ''100'' ''40'' ''20'')
        \<lparr> raw_Non_Cash_Adjustments := Some (js ''5''),
          raw_Plan_Revenue := Some (js ''90''), raw_Plan_COGS := Some (js ''35''),
          raw_Plan_OPEX := Some (js ''25''), raw_Plan_NetIncome := Some (js ''n/a'') \<rparr>]"

text \<open>Two rows without revenue: a negative zero, and a revenue field that is no number.\<close>

definition zeroRevenueBatch :: "RawDataRow list" where
  "zeroRevenueBatch =
     [exampleRow ''Q1-2023'' ''East'' ''Soap'' ''-0'' ''40'' ''20'',
      exampleRow ''Q2-2023'' ''East'' ''Soap'' ''none'' ''40'' ''20'']"

text \<open>Percentage growth of a current value over an earlier one.\<close>

definition growthPercent :: "js_number \<Rightarrow> js_number \<Rightarrow> js_number" where
  "growthPercent current previous = jmul (jdiv (jsub current previous) previous) (Num 100)"

text \<open>Three consecutive quarters of one segment, with revenues 100, 110 and 90.\<close>

definition qoqBatch :: "RawDataRow list" where
  "qoqBatch =
     [exampleRow ''Q1-2023'' ''East'' ''Soap'' ''100'' ''40'' ''20'',
      exampleRow ''Q2-2023'' ''East'' ''Soap'' ''110'' ''40'' ''20'',
      exampleRow ''Q3-2023'' ''East'' ''Soap'' ''90'' ''40'' ''20'']"

text \<open>A first quarter, the same quarter a year later, and that quarter in another region.\<close>

definition yoyBatch :: "RawDataRow list" where
  "yoyBatch =
     [exampleRow ''Q1-2023'' ''East'' ''Soap'' ''100'' ''40'' ''20'',
      exampleRow ''Q1-2024'' ''East'' ''Soap'' ''120'' ''40'' ''20'',
      exampleRow ''Q1-2024'' ''West'' ''Soap'' ''130'' ''40'' ''20'']"

text \<open>
  The same quarter of the previous year in the same segment, as a relation between a
  candidate \<open>d\<close> and a row \<open>r\<close>.
\<close>

definition yearEarlierPeer :: "ProcessedDataRow \<Rightarrow> ProcessedDataRow \<Rightarrow> bool" where
  "yearEarlierPeer r d =
     (val (Year d) = val (Year r) - 1 \<and> quarterIndex d = quarterIndex r \<and>
      Region d = Region r \<and> Product d = Product r)"

text \<open>A batch of one row whose revenue field reads \<open>Infinity\<close>.\<close>

definition infinityBatch :: "RawDataRow list" where
  "infinityBatch = [exampleRow ''Q1-2023'' ''East'' ''Soap'' ''Infinity'' ''40'' ''20'']"

text \<open>
  The decimal literals of the grammar \<open>StrDecimalLiteral\<close>: an optional sign, then
  \<open>Infinity\<close> or digits with an optional fraction (at least one digit before or after
  the point) and an optional exponent.
\<close>

definition signPart :: "js_string \<Rightarrow> bool" where
  "signPart sg = (sg = [] \<or> sg = js ''+'' \<or> sg = js ''-'')"

definition fractionPart :: "js_string \<Rightarrow> bool" where
  "fractionPart fp = (fp = [] \<or> (\<exists>fd. fp = js ''.'' @ fd \<and> list_all isDigit fd))"

definition exponentPart :: "js_string \<Rightarrow> bool" where
  "exponentPart ex =
     (ex = [] \<or>
      (\<exists>c sg ed. ex = c # sg @ ed \<and> (c = 0x65 \<or> c = 0x45) \<and> signPart sg \<and>
         ed \<noteq> [] \<and> list_all isDigit ed))"

definition unsignedLiteral :: "js_string \<Rightarrow> bool" where
  "unsignedLiteral body =
     (body = js ''Infinity'' \<or>
      (\<exists>ip fp ex. body = ip @ fp @ ex \<and> list_all isDigit ip \<and> fractionPart fp \<and>
         (1 < length fp \<or> ip \<noteq> []) \<and> exponentPart ex))"

definition decimalLiteral :: "js_string \<Rightarrow> bool" where
  "decimalLiteral p = (\<exists>sg body. p = sg @ body \<and> signPart sg \<and> unsignedLiteral body)"

text \<open>A nullable number that is finite or null.\<close>

definition finiteOrNull :: "js_number option \<Rightarrow> bool" where
  "finiteOrNull v = (case v of None \<Rightarrow> True | Some n \<Rightarrow> isFinite n)"

text \<open>Every numeric field of a row is a finite number or null.\<close>

definition allFieldsFinite :: "ProcessedDataRow \<Rightarrow> bool" where
  "allFieldsFinite r =
     (isFinite (Year r) \<and> isFinite (quarterIndex r) \<and> isFinite (sortKey r) \<and>
      isFinite (Revenue r) \<and> isFinite (COGS r) \<and> isFinite (OPEX r) \<and>
      isFinite (Non_Cash_Adjustments r) \<and> isFinite (Net_Income r) \<and>
      finiteOrNull (plan_Revenue r) \<and> finiteOrNull (plan_COGS r) \<and>
      finiteOrNull (plan_OPEX r) \<and> isFinite (plan_Non_Cash_Adjustments r) \<and>
      finiteOrNull (plan_NetIncome r) \<and>
      isFinite (grossProfit r) \<and> isFinite (grossMargin r) \<and> isFinite (opexMargin r) \<and>
      isFinite (EBITDA r) \<and> isFinite (EBITDA_Margin r) \<and> isFinite (netMargin r) \<and>
      finiteOrNull (qoqRevenueGrowth r) \<and> finiteOrNull (qoqNetIncomeGrowth r) \<and>
      finiteOrNull (yoyRevenueGrowth r) \<and> finiteOrNull (yoyNetIncomeGrowth r) \<and>
      finiteOrNull (revVarAbs r) \<and> finiteOrNull (revVarPerc r) \<and>
      finiteOrNull (cogsVarAbs r) \<and> finiteOrNull (cogsVarPerc r) \<and>
      finiteOrNull (opexVarAbs r) \<and> finiteOrNull (opexVarPerc r) \<and>
      finiteOrNull (ebitdaPlan r) \<and> finiteOrNull (ebitdaVarAbs r) \<and>
      finiteOrNull (ebitdaVarPerc r) \<and> finiteOrNull (netIncomeVarAbs r) \<and>
      finiteOrNull (netIncomeVarPerc r))"

text \<open>A nullable number that is null or a number other than NaN.\<close>

definition notNaN :: "js_number option \<Rightarrow> bool" where
  "notNaN v = (case v of None \<Rightarrow> True | Some n \<Rightarrow> \<not> isNaN n)"

section \<open>Rounding to binary64 is exact on representable values\<close>

lemma pow2_powi: "pow2 e = 2 powi e"
  by (simp add: pow2_def power_int_def inverse_eq_divide power_one_over)

lemma pow2_pos: "0 < pow2 e"
  by (simp add: pow2_powi)

lemma pow2_add: "pow2 (a + b) = pow2 a * pow2 b"
  by (simp add: pow2_powi power_int_add)

lemma pow2_mono: "a \<le> b \<Longrightarrow> pow2 a \<le> pow2 b"
  by (simp add: pow2_powi power_int_increasing)

lemma pow2_strict_mono: "a < b \<Longrightarrow> pow2 a < pow2 b"
  by (simp add: pow2_powi power_int_strict_increasing)

lemma pow2_less_iff: "pow2 a < pow2 b \<longleftrightarrow> a < b"
  using pow2_mono [of b a] pow2_strict_mono [of a b] by fastforce

lemma pow2_nat: "0 \<le> e \<Longrightarrow> pow2 e = 2 ^ nat e"
  by (simp add: pow2_def)

lemma pow2_neg: "pow2 (- e) = 1 / pow2 e"
  by (simp add: pow2_powi power_int_minus_divide)

lemma ilog2_bounds:
  assumes "0 < a"
  shows "pow2 (ilog2 a) \<le> a" and "a < pow2 (ilog2 a + 1)"
proof -
  have "pow2 (ilog2 a) \<le> a \<and> a < pow2 (ilog2 a + 1)"
  proof (cases "1 \<le> a")
    case True
    define n where "n = \<lfloor>a\<rfloor>"
    have npos: "0 < n" using True by (simp add: n_def)
    define b where "b = bitlen n"
    have b1: "1 \<le> b" using npos bitlen_eq_zero_iff [of n] bitlen_nonneg [of n] by (simp add: b_def)
    have bb: "2 ^ nat (b - 1) \<le> n" "n < 2 ^ nat b"
      using bitlen_bounds [OF npos] by (simp_all add: b_def)
    have lo: "pow2 (b - 1) \<le> a"
    proof -
      have "pow2 (b - 1) = of_int (2 ^ nat (b - 1))" using b1 by (simp add: pow2_nat)
      also have "\<dots> \<le> of_int n" using bb(1) by (simp only: of_int_le_iff)
      also have "\<dots> \<le> a" by (simp add: n_def)
      finally show ?thesis .
    qed
    have hi: "a < pow2 b"
    proof -
      have "n + 1 \<le> 2 ^ nat b" using bb(2) by simp
      then have "of_int (n + 1) \<le> (of_int (2 ^ nat b) :: real)" by (simp only: of_int_le_iff)
      moreover have "a < of_int (n + 1)" by (simp add: n_def)
      ultimately show ?thesis using b1 by (simp add: pow2_nat)
    qed
    have "ilog2 a = b - 1" using True by (simp add: ilog2_def b_def n_def)
    then show ?thesis using lo hi by simp
  next
    case False
    define t where "t = 1 / a"
    have t1: "1 < t" using False assms by (simp add: t_def)
    define n where "n = \<lceil>t\<rceil> - 1"
    have npos: "0 < n" using t1 by (simp add: n_def less_ceiling_iff)
    define b where "b = bitlen n"
    have b1: "1 \<le> b" using npos bitlen_eq_zero_iff [of n] bitlen_nonneg [of n] by (simp add: b_def)
    have bb: "2 ^ nat (b - 1) \<le> n" "n < 2 ^ nat b"
      using bitlen_bounds [OF npos] by (simp_all add: b_def)
    have nt: "of_int n < t" "t \<le> of_int n + 1"
      by (simp_all add: n_def) linarith+
    have t_hi: "t \<le> pow2 b"
    proof -
      have "n + 1 \<le> 2 ^ nat b" using bb(2) by simp
      then have "of_int (n + 1) \<le> (of_int (2 ^ nat b) :: real)" by (simp only: of_int_le_iff)
      then show ?thesis using nt(2) b1 by (simp add: pow2_nat)
    qed
    have t_lo: "pow2 (b - 1) < t"
    proof -
      have "pow2 (b - 1) = of_int (2 ^ nat (b - 1))" using b1 by (simp add: pow2_nat)
      also have "\<dots> \<le> of_int n" using bb(1) by (simp only: of_int_le_iff)
      finally show ?thesis using nt(1) by simp
    qed
    have a_eq: "a = 1 / t" using assms by (simp add: t_def)
    have lo: "pow2 (- b) \<le> a"
      unfolding pow2_neg a_eq using t_hi t1 pow2_pos [of b] by (simp add: frac_le)
    have hi: "a < pow2 (- b + 1)"
    proof -
      have "pow2 (- b + 1) = 1 / pow2 (b - 1)" using pow2_neg [of "b - 1"] by simp
      moreover have "1 / t < 1 / pow2 (b - 1)"
        using t_lo pow2_pos [of "b - 1"] by (simp add: frac_less2)
      ultimately show ?thesis using a_eq by simp
    qed
    have "ilog2 a = - b" using False by (simp add: ilog2_def b_def n_def t_def)
    then show ?thesis using lo hi by simp
  qed
  then show "pow2 (ilog2 a) \<le> a" and "a < pow2 (ilog2 a + 1)" by simp_all
qed

lemma round_half_even_of_int: "round_half_even (of_int n) = n"
  by (simp add: round_half_even_def)


lemma ilog2_unique:
  assumes "pow2 lo \<le> a" "a < pow2 hi"
  shows "lo \<le> ilog2 a" "ilog2 a < hi"
proof -
  have apos: "0 < a" using assms(1) pow2_pos [of lo] by linarith
  have "pow2 lo < pow2 (ilog2 a + 1)"
    using assms(1) ilog2_bounds(2) [OF apos] by linarith
  then show "lo \<le> ilog2 a" by (simp add: pow2_less_iff)
  have "pow2 (ilog2 a) < pow2 hi"
    using assms(2) ilog2_bounds(1) [OF apos] by linarith
  then show "ilog2 a < hi" by (simp add: pow2_less_iff)
qed

lemma round64_exact:
  assumes m0: "m \<noteq> 0" and mb: "\<bar>m\<bar> < 2 ^ 53" and e_lo: "- 1074 \<le> e" and e_hi: "e \<le> 971"
  shows "round64 (of_int m * pow2 e) = Num (of_int m * pow2 e)"
proof -
  define x where "x = of_int m * pow2 e"
  define a where "a = \<bar>x\<bar>"
  have a_eq: "a = of_int \<bar>m\<bar> * pow2 e"
    using pow2_pos [of e] by (simp add: a_def x_def abs_mult)
  have m1: "1 \<le> \<bar>m\<bar>" using m0 by simp
  have a_lo: "pow2 e \<le> a"
  proof -
    have "1 * pow2 e \<le> of_int \<bar>m\<bar> * pow2 e"
      using m1 pow2_pos [of e] by (intro mult_right_mono) simp_all
    then show ?thesis by (simp add: a_eq)
  qed
  have a_hi: "a < pow2 (e + 53)"
  proof -
    have "(of_int \<bar>m\<bar> :: real) < of_int (2 ^ 53)" using mb by (simp only: of_int_less_iff)
    then have "of_int \<bar>m\<bar> * pow2 e < 2 ^ 53 * pow2 e"
      using pow2_pos [of e] by (intro mult_strict_right_mono) simp_all
    moreover have "pow2 (e + 53) = pow2 e * 2 ^ 53" by (simp add: pow2_add pow2_nat)
    ultimately show ?thesis by (simp add: a_eq mult.commute)
  qed
  define E where "E = max (ilog2 a) (- 1022)"
  have E_lo: "e \<le> ilog2 a" and E_hi: "ilog2 a < e + 53"
    using ilog2_unique [OF a_lo a_hi] by simp_all
  have Ek: "E - 52 \<le> e" using E_hi e_lo by (simp add: E_def)
  have E1023: "E \<le> 1023" using E_hi e_hi by (simp add: E_def)
  define k where "k = nat (e - (E - 52))"
  define q where "q = pow2 (E - 52)"
  have qpos: "0 < q" by (simp add: q_def pow2_pos)
  have e_split: "pow2 e = 2 ^ k * q"
  proof -
    have "pow2 e = pow2 ((e - (E - 52)) + (E - 52))" by simp
    also have "\<dots> = pow2 (e - (E - 52)) * q" unfolding q_def by (rule pow2_add)
    also have "pow2 (e - (E - 52)) = 2 ^ k" using Ek by (simp add: pow2_nat k_def)
    finally show ?thesis .
  qed
  define M where "M = \<bar>m\<bar> * 2 ^ k"
  have aq: "a / q = of_int M" using qpos by (simp add: a_eq e_split M_def)
  have Mq: "of_int M * q = a" using qpos aq by (simp add: field_simps)
  have M0: "M \<noteq> 0" using m0 by (simp add: M_def)
  have r: "round_half_even (a / q) = M" by (simp add: aq round_half_even_of_int)
  have no_ovf: "\<not> (1023 < E \<or> (E = 1023 \<and> M = 2 ^ 53))"
  proof -
    have "M \<noteq> 2 ^ 53" if "E = 1023"
    proof
      assume "M = 2 ^ 53"
      then have "a = 2 ^ 53 * pow2 971" using Mq that by (simp add: q_def)
      also have "\<dots> = pow2 1024" using pow2_add [of 53 971] by (simp add: pow2_nat)
      finally have "pow2 1024 \<le> a" by simp
      then have "1024 \<le> ilog2 a" using ilog2_unique(1) [OF _ a_hi] by simp
      then show False using E_hi e_hi by simp
    qed
    then show ?thesis using E1023 by auto
  qed
  have "round64 x = Num (if x < 0 then - (of_int M * q) else of_int M * q)"
    unfolding round64_def Let_def
    using no_ovf M0 r by (simp add: a_def [symmetric] E_def [symmetric] q_def [symmetric])
  also have "(if x < 0 then - (of_int M * q) else of_int M * q) = x"
    by (simp add: Mq a_def)
  finally show ?thesis by (simp add: x_def)
qed

lemma round64_of_int:
  assumes "k \<noteq> 0" "\<bar>k\<bar> < 2 ^ 53"
  shows "round64 (of_int k) = Num (of_int k)"
  using round64_exact [of k 0] assms by (simp add: pow2_def)

lemma round64_quarters:
  assumes "k \<noteq> 0" "\<bar>k\<bar> < 2 ^ 53"
  shows "round64 (of_int k / 4) = Num (of_int k / 4)"
  using round64_exact [of k "- 2"] assms by (simp add: pow2_def)

section \<open>Period labels\<close>

lemma isDigit_uint: "isDigit c \<longleftrightarrow> 48 \<le> uint c \<and> uint c \<le> 57"
  by (simp add: isDigit_def word_le_def)

lemma isDigit_digitVal: "isDigit c \<Longrightarrow> 0 \<le> digitVal c \<and> digitVal c \<le> 9"
  by (simp add: isDigit_uint digitVal_def)

lemma isDigit_not_special:
  assumes "isDigit c"
  shows "\<not> isWhiteSpace c" "c \<noteq> 0x2D" "c \<noteq> 0x2B" "c \<noteq> 0x2E" "c \<noteq> 0x65" "c \<noteq> 0x45"
  using assms by (auto simp add: isDigit_uint isWhiteSpace_def word_le_def)

lemma matchesQuarter_iff:
  "matchesQuarter s \<longleftrightarrow>
     (\<exists>i d1 d2 d3 d4. s = [0x51, i, 0x2D, d1, d2, d3, d4] \<and> 0x31 \<le> i \<and> i \<le> 0x34 \<and>
        isDigit d1 \<and> isDigit d2 \<and> isDigit d3 \<and> isDigit d4)"
  by (auto simp add: matchesQuarter_def split: list.splits)

lemma quarterDigit:
  assumes "0x31 \<le> i" "i \<le> (0x34 :: code_unit)"
  shows "isDigit i" "1 \<le> digitVal i" "digitVal i \<le> 4"
  using assms by (auto simp add: isDigit_uint digitVal_def word_le_def)

lemma parseInt_digit:
  assumes "isDigit c"
  shows "parseInt [c] = Num (of_int (digitVal c))"
proof -
  have v: "digitsVal [c] = digitVal c" by (simp add: digitsVal_def)
  have b: "\<bar>digitVal c\<bar> < 2 ^ 53" using isDigit_digitVal [OF assms] by simp
  show ?thesis
    using assms isDigit_not_special [OF assms] round64_of_int [of "digitVal c"] b
    by (simp add: parseInt_def trimStart_def v signedZero_def Let_def)
qed

lemma parseInt_digits4:
  assumes "isDigit d1" "isDigit d2" "isDigit d3" "isDigit d4"
  shows "parseInt [d1, d2, d3, d4] =
           Num (of_int (1000 * digitVal d1 + 100 * digitVal d2 + 10 * digitVal d3 + digitVal d4))"
proof -
  define y where "y = 1000 * digitVal d1 + 100 * digitVal d2 + 10 * digitVal d3 + digitVal d4"
  have v: "digitsVal [d1, d2, d3, d4] = y" by (simp add: digitsVal_def y_def)
  have b: "0 \<le> y" "\<bar>y\<bar> < 2 ^ 53"
    using assms [THEN isDigit_digitVal] by (simp_all add: y_def)
  have "parseInt [d1, d2, d3, d4] = Num (of_int y)"
    using assms isDigit_not_special(1-3) [OF assms(1)] round64_of_int [of y] b
    by (simp add: parseInt_def trimStart_def v signedZero_def Let_def)
  then show ?thesis by (simp add: y_def)
qed

lemma parseQuarter_valid:
  assumes i: "0x31 \<le> i" "i \<le> 0x34"
    and d: "isDigit d1" "isDigit d2" "isDigit d3" "isDigit d4"
  defines "y \<equiv> 1000 * digitVal d1 + 100 * digitVal d2 + 10 * digitVal d3 + digitVal d4"
  shows "parseQuarter [0x51, i, 0x2D, d1, d2, d3, d4] =
           Inr (Num (of_int y), Num (of_int (digitVal i)),
                Num (of_int y + of_int (digitVal i) / 4))"
proof -
  let ?s = "[0x51, i, 0x2D, d1, d2, d3, d4]"
  have m: "matchesQuarter ?s" using i d by (simp add: matchesQuarter_def)
  have id: "isDigit i" using i by (rule quarterDigit)
  have q: "1 \<le> digitVal i" "digitVal i \<le> 4" using i by (rule quarterDigit)+
  have parts: "jsSplit 0x2D ?s = [[0x51, i], [d1, d2, d3, d4]]"
    using isDigit_not_special(2) [OF id] d [THEN isDigit_not_special(2)] by simp
  have yb: "0 \<le> y" "y \<le> 9999" using d [THEN isDigit_digitVal] by (simp_all add: y_def)
  have qi: "parseInt [i] = Num (of_int (digitVal i))"
    by (rule parseInt_digit [OF id])
  have yr: "parseInt [d1, d2, d3, d4] = Num (of_int y)"
    using parseInt_digits4 [OF d] by (simp add: y_def)
  have dv: "jdiv (Num (of_int (digitVal i))) (Num 4) = Num (of_int (digitVal i) / 4)"
    using q round64_quarters [of "digitVal i"]
    by (simp add: jdiv_def isNaN_def isInf_def isZero_def)
  have ad: "jadd (Num (of_int y)) (Num (of_int (digitVal i) / 4))
              = Num (of_int y + of_int (digitVal i) / 4)"
  proof -
    have e: "(of_int y :: real) + of_int (digitVal i) / 4 = of_int (4 * y + digitVal i) / 4"
      by simp
    have "round64 (of_int (4 * y + digitVal i) / 4) = Num (of_int (4 * y + digitVal i) / 4)"
      using q yb by (intro round64_quarters) simp_all
    moreover have "(of_int (4 * y + digitVal i) :: real) / 4 \<noteq> 0" using q yb by simp
    ultimately show ?thesis
      unfolding jadd_def e [symmetric] by (simp add: isNaN_def isInf_def)
  qed
  show ?thesis
    using m
    by (simp add: parseQuarter_def parts arrayGet_def substring_def qi yr dv ad Let_def
             del: jsSplit.simps)
qed

lemma parseQuarter_Inl:
  "parseQuarter s = Inl e \<longleftrightarrow> \<not> matchesQuarter s \<and> e = quarterError s"
proof (cases "matchesQuarter s")
  case True
  then obtain i d1 d2 d3 d4 where "s = [0x51, i, 0x2D, d1, d2, d3, d4]" "0x31 \<le> i" "i \<le> 0x34"
    "isDigit d1" "isDigit d2" "isDigit d3" "isDigit d4"
    unfolding matchesQuarter_iff by blast
  then show ?thesis using True parseQuarter_valid [of i d1 d2 d3 d4] by simp
next
  case False
  then show ?thesis by (auto simp add: parseQuarter_def)
qed

section \<open>The first pass\<close>

lemma safeParseFloat_number_default:
  "safeParseFloat v (Some d) = Some (case safeParseFloat v None of None \<Rightarrow> d | Some n \<Rightarrow> n)"
  by (simp add: safeParseFloat_def Let_def split: option.splits)

lemma normalizeRow_Inl:
  "normalizeRow row index = Inl e \<longleftrightarrow> parseQuarter (raw_Quarter row) = Inl e"
  by (cases "parseQuarter (raw_Quarter row)")
     (simp_all add: normalizeRow_def Let_def split: prod.splits split del: if_split)

lemma normalizeRow_Inr_ex:
  assumes "matchesQuarter (raw_Quarter row)"
  shows "\<exists>r. normalizeRow row index = Inr r"
proof (cases "normalizeRow row index")
  case (Inl e)
  then show ?thesis using assms by (simp add: normalizeRow_Inl parseQuarter_Inl)
next
  case (Inr r)
  then show ?thesis by simp
qed

lemma normalizeRow_matches:
  assumes "normalizeRow row index = Inr r"
  shows "matchesQuarter (raw_Quarter row)"
proof (rule ccontr)
  assume "\<not> matchesQuarter (raw_Quarter row)"
  then have "normalizeRow row index = Inl (quarterError (raw_Quarter row))"
    by (simp add: normalizeRow_Inl parseQuarter_Inl)
  then show False using assms by simp
qed

lemma normalizeRow_period:
  assumes "normalizeRow row index = Inr r"
  shows "parseQuarter (raw_Quarter row) = Inr (Year r, quarterIndex r, sortKey r)"
    and "Quarter r = raw_Quarter row"
proof -
  obtain y q k where pq: "parseQuarter (raw_Quarter row) = Inr (y, q, k)"
    using assms normalizeRow_Inl [of row index]
    by (cases "parseQuarter (raw_Quarter row)") auto
  have r: "r = projr (normalizeRow row index)" using assms by simp
  show "parseQuarter (raw_Quarter row) = Inr (Year r, quarterIndex r, sortKey r)"
    unfolding r by (simp add: normalizeRow_def pq Let_def split del: if_split)
  show "Quarter r = raw_Quarter row"
    unfolding r by (simp add: normalizeRow_def pq Let_def split del: if_split)
qed

lemma normalizeRow_periodOK:
  assumes "normalizeRow row index = Inr r"
  shows "periodOK r"
proof -
  obtain i d1 d2 d3 d4 where s: "raw_Quarter row = [0x51, i, 0x2D, d1, d2, d3, d4]"
    and i: "0x31 \<le> i" "i \<le> 0x34" and d: "isDigit d1" "isDigit d2" "isDigit d3" "isDigit d4"
    using normalizeRow_matches [OF assms] unfolding matchesQuarter_iff by blast
  define y where "y = 1000 * digitVal d1 + 100 * digitVal d2 + 10 * digitVal d3 + digitVal d4"
  have yb: "0 \<le> y" "y \<le> 9999" using d [THEN isDigit_digitVal] by (simp_all add: y_def)
  have "Year r = Num (of_int y) \<and> quarterIndex r = Num (of_int (digitVal i)) \<and>
        sortKey r = Num (of_int y + of_int (digitVal i) / 4)"
    using normalizeRow_period(1) [OF assms] parseQuarter_valid [OF i d]
    by (simp add: s y_def)
  then show ?thesis
    unfolding periodOK_def using yb quarterDigit(2,3) [OF i] by blast
qed

lemma mapIndexed_Inr_iff:
  "mapIndexed f xs k = Inr ys \<longleftrightarrow>
     length ys = length xs \<and> (\<forall>j<length xs. f (xs ! j) (k + j) = Inr (ys ! j))"
proof (induction xs arbitrary: k ys)
  case Nil
  then show ?case by auto
next
  case (Cons x xs)
  show ?case
  proof (cases ys)
    case Nil
    then show ?thesis by (auto split: sum.splits)
  next
    case (Cons y ys')
    have "(\<forall>j<Suc (length xs). f ((x # xs) ! j) (k + j) = Inr ((y # ys') ! j)) \<longleftrightarrow>
          f x k = Inr y \<and> (\<forall>j<length xs. f (xs ! j) (Suc k + j) = Inr (ys' ! j))"
      by (auto simp add: less_Suc_eq_0_disj)
    then show ?thesis
      using Cons.IH [of "Suc k" ys'] Cons by (auto split: sum.splits)
  qed
qed

lemma mapIndexed_normalizeRow_Inl:
  "mapIndexed normalizeRow rawData k = Inl e \<longleftrightarrow>
     (\<exists>bad. find (\<lambda>row. \<not> matchesQuarter (raw_Quarter row)) rawData = Some bad \<and>
            e = quarterError (raw_Quarter bad))"
proof (induction rawData arbitrary: k)
  case Nil
  then show ?case by simp
next
  case (Cons row rows)
  show ?case
  proof (cases "matchesQuarter (raw_Quarter row)")
    case True
    then obtain r where nr: "normalizeRow row k = Inr r" using normalizeRow_Inr_ex by blast
    have "mapIndexed normalizeRow (row # rows) k = Inl e \<longleftrightarrow>
          mapIndexed normalizeRow rows (Suc k) = Inl e"
      by (simp add: nr split: sum.splits)
    moreover have "find (\<lambda>row. \<not> matchesQuarter (raw_Quarter row)) (row # rows) =
                   find (\<lambda>row. \<not> matchesQuarter (raw_Quarter row)) rows"
      using True by simp
    ultimately show ?thesis using Cons.IH [of "Suc k"] by simp
  next
    case False
    then have "normalizeRow row k = Inl (quarterError (raw_Quarter row))"
      by (simp add: normalizeRow_Inl parseQuarter_Inl)
    then show ?thesis using False by (simp add: eq_commute)
  qed
qed

lemma mapIndexed_normalizeRow_Inr:
  assumes "\<forall>row\<in>set rawData. matchesQuarter (raw_Quarter row)"
  shows "\<exists>norm. mapIndexed normalizeRow rawData k = Inr norm"
proof (cases "mapIndexed normalizeRow rawData k")
  case (Inl e)
  then obtain bad where "find (\<lambda>row. \<not> matchesQuarter (raw_Quarter row)) rawData = Some bad"
    unfolding mapIndexed_normalizeRow_Inl by blast
  then show ?thesis using assms by (auto simp add: find_Some_iff)
next
  case (Inr norm)
  then show ?thesis by simp
qed

section \<open>Sorting and the second pass\<close>

lemma periodOK_sortKey:
  assumes "periodOK r"
  obtains k where "0 < k" "k < 40004" "sortKey r = Num (of_int k / 4)"
proof -
  obtain y q where yq: "0 \<le> y" "y \<le> 9999" "1 \<le> q" "q \<le> 4"
    "sortKey r = Num (of_int y + of_int q / 4)"
    using assms unfolding periodOK_def by blast
  have "(of_int y :: real) + of_int q / 4 = of_int (4 * y + q) / 4" by simp
  then show ?thesis using that [of "4 * y + q"] yq by simp
qed

lemma jsub_Num:
  "B \<noteq> 0 \<Longrightarrow> jsub (Num A) (Num B) = (if A - B = 0 then Num 0 else round64 (A - B))"
  by (simp add: jsub_def jadd_def isNaN_def isInf_def)

lemma sortKey_difference:
  assumes "periodOK a" "periodOK b"
  shows "jsub (sortKey a) (sortKey b) = Num (val (sortKey a) - val (sortKey b))"
proof -
  obtain ka where ka: "0 < ka" "ka < 40004" "sortKey a = Num (of_int ka / 4)"
    using assms(1) by (rule periodOK_sortKey)
  obtain kb where kb: "0 < kb" "kb < 40004" "sortKey b = Num (of_int kb / 4)"
    using assms(2) by (rule periodOK_sortKey)
  have d: "(of_int ka :: real) / 4 - of_int kb / 4 = of_int (ka - kb) / 4" by simp
  have r: "ka \<noteq> kb \<Longrightarrow> round64 (of_int (ka - kb) / 4) = Num (of_int (ka - kb) / 4)"
    using ka kb by (intro round64_quarters) simp_all
  have "jsub (sortKey a) (sortKey b) =
          (if of_int (ka - kb) / 4 = (0 :: real) then Num 0 else round64 (of_int (ka - kb) / 4))"
  proof -
    have nz: "real_of_int kb / 4 \<noteq> 0" using kb(1) by simp
    show ?thesis unfolding ka(3) kb(3) jsub_Num [OF nz] d by (rule refl)
  qed
  also have "\<dots> = Num (of_int (ka - kb) / 4)" using r by auto
  finally show ?thesis unfolding ka(3) kb(3) by (simp only: val.simps d)
qed

lemma insertSorted_insort_key:
  assumes "periodOK x" "\<forall>y\<in>set ys. periodOK y"
  shows "insertSorted (\<lambda>a b. jsub (sortKey a) (sortKey b)) x ys =
           insort_key (\<lambda>r. val (sortKey r)) x ys"
  using assms
proof (induction ys)
  case Nil
  then show ?case by simp
next
  case (Cons y ys)
  have "jlt (Num 0) (sortCompare (\<lambda>a b. jsub (sortKey a) (sortKey b)) x y) \<longleftrightarrow>
        \<not> val (sortKey x) \<le> val (sortKey y)"
    using sortKey_difference [of x y] Cons.prems
    by (auto simp add: sortCompare_def jlt_def isNaN_def isInf_def)
  then show ?case using Cons by simp
qed

lemma arraySort_sort_key:
  assumes "\<forall>r\<in>set xs. periodOK r"
  shows "arraySort (\<lambda>a b. jsub (sortKey a) (sortKey b)) xs = sort_key (\<lambda>r. val (sortKey r)) xs"
  using assms
proof (induction xs)
  case Nil
  then show ?case by (simp add: arraySort_def)
next
  case (Cons x xs)
  have "arraySort (\<lambda>a b. jsub (sortKey a) (sortKey b)) (x # xs) =
        insertSorted (\<lambda>a b. jsub (sortKey a) (sortKey b)) x
          (sort_key (\<lambda>r. val (sortKey r)) xs)"
    using Cons by (simp add: arraySort_def)
  also have "\<dots> = insort_key (\<lambda>r. val (sortKey r)) x (sort_key (\<lambda>r. val (sortKey r)) xs)"
    using Cons.prems by (intro insertSorted_insort_key) simp_all
  finally show ?case by (simp add: sort_key_def)
qed

lemma enrichRow_growthCleared: "growthCleared (enrichRow arr index r) = growthCleared r"
  by (simp add: enrichRow_def growthCleared_def Let_def)

lemma normalizeRow_growthCleared:
  assumes "normalizeRow row index = Inr r"
  shows "growthCleared r = r"
proof -
  obtain y q k where pq: "parseQuarter (raw_Quarter row) = Inr (y, q, k)"
    using assms normalizeRow_Inl [of row index]
    by (cases "parseQuarter (raw_Quarter row)") auto
  have r: "r = projr (normalizeRow row index)" using assms by simp
  show ?thesis
    unfolding r growthCleared_def by (simp add: normalizeRow_def pq Let_def split del: if_split)
qed

lemma processFinancialData_shape:
  assumes "\<forall>row\<in>set rawData. matchesQuarter (raw_Quarter row)"
  obtains norm arr where
    "length norm = length rawData"
    "\<forall>i<length rawData. normalizeRow (rawData ! i) i = Inr (norm ! i)"
    "\<forall>r\<in>set norm. periodOK r"
    "arr = sort_key (\<lambda>r. val (sortKey r)) norm"
    "processFinancialData rawData =
       Inr (map (\<lambda>(index, currentRow). enrichRow arr index currentRow) (enumerate 0 arr))"
proof -
  obtain norm where norm: "mapIndexed normalizeRow rawData 0 = Inr norm"
    using mapIndexed_normalizeRow_Inr [OF assms] by blast
  then have len: "length norm = length rawData"
    and rows: "\<forall>i<length rawData. normalizeRow (rawData ! i) i = Inr (norm ! i)"
    by (simp_all add: mapIndexed_Inr_iff)
  have ok: "\<forall>r\<in>set norm. periodOK r"
  proof
    fix r assume "r \<in> set norm"
    then obtain i where "i < length norm" "norm ! i = r" by (auto simp add: in_set_conv_nth)
    then show "periodOK r" using rows len normalizeRow_periodOK by metis
  qed
  show ?thesis
    using that [OF len rows ok refl] norm arraySort_sort_key [OF ok]
    by (simp add: processFinancialData_def Let_def)
qed

lemma periodOK_Num: "periodOK r \<Longrightarrow> sortKey r = Num (val (sortKey r))"
  by (auto simp add: periodOK_def)

lemma jle_Num: "jle (Num a) (Num b) \<longleftrightarrow> a \<le> b"
  by (auto simp add: jle_def jlt_def isNaN_def isInf_def)

lemma enrichRow_sortKey: "sortKey (enrichRow arr index r) = sortKey r"
  by (simp add: enrichRow_def Let_def)

lemma enriched_growthCleared:
  "map growthCleared (map (\<lambda>(index, currentRow). enrichRow arr index currentRow) (enumerate 0 arr))
     = map growthCleared arr"
  by (rule nth_equalityI) (simp_all add: nth_enumerate_eq enrichRow_growthCleared)

lemma stable_filter:
  assumes "\<forall>r\<in>set xs. periodOK r"
  shows "filter (\<lambda>r. sortKey r = k) (sort_key (\<lambda>r. val (sortKey r)) xs) =
           filter (\<lambda>r. sortKey r = k) xs"
proof -
  let ?f = "\<lambda>r. val (sortKey r)"
  have ok': "\<forall>r\<in>set (sort_key ?f xs). periodOK r" using assms by simp
  have eq: "\<And>ys. \<forall>r\<in>set ys. periodOK r \<Longrightarrow>
              filter (\<lambda>r. sortKey r = k) ys =
                (if k = Num (val k) then filter (\<lambda>r. ?f r = val k) ys else [])"
  proof -
    fix ys :: "ProcessedDataRow list"
    assume a: "\<forall>r\<in>set ys. periodOK r"
    have "\<And>r. r \<in> set ys \<Longrightarrow> (sortKey r = k) = (k = Num (val k) \<and> ?f r = val k)"
      using a periodOK_Num by (metis val.simps(1))
    then have "filter (\<lambda>r. sortKey r = k) ys = filter (\<lambda>r. k = Num (val k) \<and> ?f r = val k) ys"
      by (intro filter_cong) simp_all
    then show "filter (\<lambda>r. sortKey r = k) ys =
                (if k = Num (val k) then filter (\<lambda>r. ?f r = val k) ys else [])"
      by simp
  qed
  show ?thesis
    unfolding eq [OF ok'] eq [OF assms] by (simp add: sort_key_stable)
qed

section \<open>Length, order and stability of the output\<close>

text \<open>
  Claim C8. When every quarter label of the input is valid, the call succeeds, the output
  has the length of the input, each output row's sort key is less than or equal to the
  next one's, and for every sort key the output rows with that key (growth fields
  aside) are the first-pass rows with that key in their input order: the sort is stable.
\<close>

theorem sorted_stable_output:
  assumes "\<forall>row\<in>set rawData. matchesQuarter (raw_Quarter row)"
  shows "\<exists>out norm.
           processFinancialData rawData = Inr out \<and>
           length out = length rawData \<and>
           (\<forall>i. Suc i < length out \<longrightarrow> jle (sortKey (out ! i)) (sortKey (out ! Suc i))) \<and>
           length norm = length rawData \<and>
           (\<forall>i<length rawData. normalizeRow (rawData ! i) i = Inr (norm ! i)) \<and>
           (\<forall>k. filter (\<lambda>r. sortKey r = k) (map growthCleared out) =
                filter (\<lambda>r. sortKey r = k) norm)"
proof -
  let ?f = "\<lambda>r. val (sortKey r)"
  obtain norm arr where len: "length norm = length rawData"
    and rows: "\<forall>i<length rawData. normalizeRow (rawData ! i) i = Inr (norm ! i)"
    and ok: "\<forall>r\<in>set norm. periodOK r"
    and arr: "arr = sort_key ?f norm"
    and run: "processFinancialData rawData =
                Inr (map (\<lambda>(index, currentRow). enrichRow arr index currentRow) (enumerate 0 arr))"
    using assms by (rule processFinancialData_shape)
  define out where "out = map (\<lambda>(index, currentRow). enrichRow arr index currentRow) (enumerate 0 arr)"
  have lo: "length out = length rawData" by (simp add: out_def arr len)
  have ok_arr: "\<forall>r\<in>set arr. periodOK r" using ok by (simp add: arr)
  have key: "sortKey (out ! i) = sortKey (arr ! i)" if "i < length arr" for i
    using that by (simp add: out_def nth_enumerate_eq enrichRow_sortKey)
  have srt: "sorted (map ?f arr)" by (simp add: arr)
  have adj: "jle (sortKey (out ! i)) (sortKey (out ! Suc i))" if "Suc i < length out" for i
  proof -
    have i: "Suc i < length arr" using that by (simp add: out_def)
    obtain a b where a: "sortKey (arr ! i) = Num a" and b: "sortKey (arr ! Suc i) = Num b"
      using ok_arr i periodOK_Num [of "arr ! i"] periodOK_Num [of "arr ! Suc i"] by auto
    have "?f (arr ! i) \<le> ?f (arr ! Suc i)"
      using srt i sorted_nth_mono [of "map ?f arr" i "Suc i"] by simp
    then have "a \<le> b" by (simp add: a b)
    then show ?thesis
      using key [of i] key [of "Suc i"] i by (simp add: a b jle_Num)
  qed
  have clr: "map growthCleared out = arr"
  proof -
    have "growthCleared r = r" if rin: "r \<in> set norm" for r
    proof -
      obtain i where "i < length norm" "norm ! i = r"
        using rin by (auto simp add: in_set_conv_nth)
      then show ?thesis using rows len normalizeRow_growthCleared by metis
    qed
    then have "map growthCleared arr = arr" by (intro map_idI) (simp add: arr)
    then show ?thesis unfolding out_def enriched_growthCleared .
  qed
  have stab: "filter (\<lambda>r. sortKey r = k) (map growthCleared out) =
              filter (\<lambda>r. sortKey r = k) norm" for k
    unfolding clr arr by (rule stable_filter [OF ok])
  show ?thesis
    using run lo adj len rows stab unfolding out_def [symmetric] by blast
qed

theorem sorted_stable_output_witness:
  "\<exists>out norm.
     processFinancialData tiedBatch = Inr out \<and>
     length out = length tiedBatch \<and>
     (\<forall>i. Suc i < length out \<longrightarrow> jle (sortKey (out ! i)) (sortKey (out ! Suc i))) \<and>
     length norm = length tiedBatch \<and>
     (\<forall>i<length tiedBatch. normalizeRow (tiedBatch ! i) i = Inr (norm ! i)) \<and>
     (\<forall>k. filter (\<lambda>r. sortKey r = k) (map growthCleared out) =
          filter (\<lambda>r. sortKey r = k) norm)"
proof -
  have "\<forall>row\<in>set tiedBatch. matchesQuarter (raw_Quarter row)"
    by (simp add: tiedBatch_def exampleRow_def matchesQuarter_def js_def isDigit_def)
  then show ?thesis by (rule sorted_stable_output)
qed

section \<open>Rows of the output and rows of the input\<close>

lemma growthCleared_fields [simp]:
  "rowId (growthCleared r) = rowId r"
  "Quarter (growthCleared r) = Quarter r"
  "Year (growthCleared r) = Year r"
  "quarterIndex (growthCleared r) = quarterIndex r"
  "sortKey (growthCleared r) = sortKey r"
  "Region (growthCleared r) = Region r"
  "Product (growthCleared r) = Product r"
  "Revenue (growthCleared r) = Revenue r"
  "COGS (growthCleared r) = COGS r"
  "OPEX (growthCleared r) = OPEX r"
  "Non_Cash_Adjustments (growthCleared r) = Non_Cash_Adjustments r"
  "Net_Income (growthCleared r) = Net_Income r"
  "plan_Revenue (growthCleared r) = plan_Revenue r"
  "plan_COGS (growthCleared r) = plan_COGS r"
  "plan_OPEX (growthCleared r) = plan_OPEX r"
  "plan_Non_Cash_Adjustments (growthCleared r) = plan_Non_Cash_Adjustments r"
  "plan_NetIncome (growthCleared r) = plan_NetIncome r"
  "grossProfit (growthCleared r) = grossProfit r"
  "grossMargin (growthCleared r) = grossMargin r"
  "opexMargin (growthCleared r) = opexMargin r"
  "EBITDA (growthCleared r) = EBITDA r"
  "EBITDA_Margin (growthCleared r) = EBITDA_Margin r"
  "netMargin (growthCleared r) = netMargin r"
  "revVarAbs (growthCleared r) = revVarAbs r"
  "revVarPerc (growthCleared r) = revVarPerc r"
  "cogsVarAbs (growthCleared r) = cogsVarAbs r"
  "cogsVarPerc (growthCleared r) = cogsVarPerc r"
  "opexVarAbs (growthCleared r) = opexVarAbs r"
  "opexVarPerc (growthCleared r) = opexVarPerc r"
  "ebitdaPlan (growthCleared r) = ebitdaPlan r"
  "ebitdaVarAbs (growthCleared r) = ebitdaVarAbs r"
  "ebitdaVarPerc (growthCleared r) = ebitdaVarPerc r"
  "netIncomeVarAbs (growthCleared r) = netIncomeVarAbs r"
  "netIncomeVarPerc (growthCleared r) = netIncomeVarPerc r"
  by (simp_all add: growthCleared_def)

lemma processFinancialData_Inl:
  "processFinancialData rawData = Inl e \<longleftrightarrow> mapIndexed normalizeRow rawData 0 = Inl e"
  by (simp add: processFinancialData_def Let_def split: sum.splits)

lemma processFinancialData_Inr_valid:
  assumes "processFinancialData rawData = Inr out"
  shows "\<forall>row\<in>set rawData. matchesQuarter (raw_Quarter row)"
proof (rule ccontr)
  assume "\<not> (\<forall>row\<in>set rawData. matchesQuarter (raw_Quarter row))"
  then have "find (\<lambda>row. \<not> matchesQuarter (raw_Quarter row)) rawData \<noteq> None"
    by (auto simp add: find_None_iff)
  then obtain e where "mapIndexed normalizeRow rawData 0 = Inl e"
    using mapIndexed_normalizeRow_Inl [of rawData 0] by auto
  then show False using assms by (simp add: processFinancialData_Inl [symmetric])
qed

text \<open>Every output row is the first-pass row of some input row, growth fields aside.\<close>

lemma output_row_origin:
  assumes "processFinancialData rawData = Inr out" "r \<in> set out"
  shows "\<exists>index<length rawData. normalizeRow (rawData ! index) index = Inr (growthCleared r)"
proof -
  let ?f = "\<lambda>r. val (sortKey r)"
  obtain norm arr where len: "length norm = length rawData"
    and rows: "\<forall>i<length rawData. normalizeRow (rawData ! i) i = Inr (norm ! i)"
    and arr: "arr = sort_key ?f norm"
    and run: "processFinancialData rawData =
                Inr (map (\<lambda>(index, currentRow). enrichRow arr index currentRow) (enumerate 0 arr))"
    using processFinancialData_Inr_valid [OF assms(1)] by (rule processFinancialData_shape)
  have out: "out = map (\<lambda>(index, currentRow). enrichRow arr index currentRow) (enumerate 0 arr)"
    using run assms(1) by simp
  obtain i where i: "i < length arr" "r = enrichRow arr i (arr ! i)"
    using assms(2) unfolding out by (auto simp add: in_set_conv_nth nth_enumerate_eq)
  have "arr ! i \<in> set norm" using i(1) arr by (metis nth_mem set_sort)
  then obtain j where j: "j < length norm" "norm ! j = arr ! i"
    by (auto simp add: in_set_conv_nth)
  have nj: "normalizeRow (rawData ! j) j = Inr (arr ! i)" using rows j len by simp
  have "growthCleared r = arr ! i"
    using normalizeRow_growthCleared [OF nj] by (simp add: i(2) enrichRow_growthCleared)
  then show ?thesis using nj j(1) len by auto
qed


section \<open>Period labels decide success\<close>




section \<open>The fields of a first-pass row\<close>

lemma strictEq_zero: "strictEq x (Num 0) \<longleftrightarrow> isZero x"
  by (auto simp add: strictEq_def isZero_def isNaN_def)

lemma round64_not_NaN: "round64 x \<noteq> NaN"
  by (simp add: round64_def Let_def)

lemma literalValue_not_NaN: "literalValue l \<noteq> NaN"
  by (cases l) (simp_all add: signedInf_def signedZero_def round64_not_NaN Let_def)

lemma trim_empty_iff: "trim s = [] \<longleftrightarrow> trimStart s = []"
proof -
  have "(\<forall>x\<in>set (dropWhile isWhiteSpace s). isWhiteSpace x) \<longleftrightarrow>
        (\<forall>x\<in>set s. isWhiteSpace x)"
  proof
    assume a: "\<forall>x\<in>set (dropWhile isWhiteSpace s). isWhiteSpace x"
    have "dropWhile isWhiteSpace s = []"
    proof (cases "dropWhile isWhiteSpace s")
      case Nil
      then show ?thesis .
    next
      case (Cons c cs)
      then have "\<not> isWhiteSpace c" using hd_dropWhile [of isWhiteSpace s] by simp
      then show ?thesis using a Cons by simp
    qed
    then show "\<forall>x\<in>set s. isWhiteSpace x" by simp
  next
    assume "\<forall>x\<in>set s. isWhiteSpace x"
    then show "\<forall>x\<in>set (dropWhile isWhiteSpace s). isWhiteSpace x"
      using set_dropWhileD by fastforce
  qed
  then show ?thesis by (simp add: trim_def trimStart_def)
qed

lemma scanStrDecimalLiteral_Nil: "scanStrDecimalLiteral [] = None"
  by (simp add: scanStrDecimalLiteral_def js_def)

lemma safeParseFloat_supplied:
  "safeParseFloat v d = (case suppliedNumber v of None \<Rightarrow> d | Some n \<Rightarrow> Some n)"
proof (cases v)
  case None
  then show ?thesis by (simp add: safeParseFloat_def suppliedNumber_def)
next
  case (Some s)
  show ?thesis
  proof (cases "trim s = []")
    case True
    then have "leadingNumber s = None"
      by (simp add: leadingNumber_def trim_empty_iff scanStrDecimalLiteral_Nil)
    then show ?thesis using True Some by (simp add: safeParseFloat_def suppliedNumber_def)
  next
    case False
    then show ?thesis
      using Some literalValue_not_NaN
      by (simp add: safeParseFloat_def suppliedNumber_def leadingNumber_def parseFloat_def
            isNaN_def Let_def split: option.splits)
  qed
qed

lemma normalizeRow_actuals:
  assumes "normalizeRow row index = Inr r"
  shows "Revenue r = (case suppliedNumber (Some (raw_Revenue row)) of None \<Rightarrow> Num 0 | Some n \<Rightarrow> n)"
    and "COGS r = (case suppliedNumber (Some (raw_COGS row)) of None \<Rightarrow> Num 0 | Some n \<Rightarrow> n)"
    and "OPEX r = (case suppliedNumber (Some (raw_OPEX row)) of None \<Rightarrow> Num 0 | Some n \<Rightarrow> n)"
    and "Non_Cash_Adjustments r =
           (case suppliedNumber (raw_Non_Cash_Adjustments row) of None \<Rightarrow> Num 0 | Some n \<Rightarrow> n)"
    and "Net_Income r =
           (case suppliedNumber (raw_Net_Income row) of
              None \<Rightarrow> jsub (jsub (Revenue r) (COGS r)) (OPEX r)
            | Some n \<Rightarrow> n)"
    and "Region r = orDefault (raw_Region row) (js ''All'')"
    and "Product r = orDefault (raw_Product row) (js ''All'')"
proof -
  obtain y q k where pq: "parseQuarter (raw_Quarter row) = Inr (y, q, k)"
    using assms normalizeRow_Inl [of row index]
    by (cases "parseQuarter (raw_Quarter row)") auto
  have r: "r = projr (normalizeRow row index)" using assms by simp
  note defs = normalizeRow_def pq Let_def
  have raw:
    "Revenue r = the (safeParseFloat (Some (raw_Revenue row)) (Some (Num 0)))"
    "COGS r = the (safeParseFloat (Some (raw_COGS row)) (Some (Num 0)))"
    "OPEX r = the (safeParseFloat (Some (raw_OPEX row)) (Some (Num 0)))"
    "Non_Cash_Adjustments r = the (safeParseFloat (raw_Non_Cash_Adjustments row) (Some (Num 0)))"
    unfolding r by (simp_all add: defs split del: if_split)
  have ni: "Net_Income r =
           (case safeParseFloat (raw_Net_Income row) None of
              None \<Rightarrow> jsub (jsub (Revenue r) (COGS r)) (OPEX r)
            | Some n \<Rightarrow> n)"
    unfolding raw unfolding r by (simp add: defs split del: if_split)
  show "Revenue r = (case suppliedNumber (Some (raw_Revenue row)) of None \<Rightarrow> Num 0 | Some n \<Rightarrow> n)"
    and "COGS r = (case suppliedNumber (Some (raw_COGS row)) of None \<Rightarrow> Num 0 | Some n \<Rightarrow> n)"
    and "OPEX r = (case suppliedNumber (Some (raw_OPEX row)) of None \<Rightarrow> Num 0 | Some n \<Rightarrow> n)"
    and "Non_Cash_Adjustments r =
           (case suppliedNumber (raw_Non_Cash_Adjustments row) of None \<Rightarrow> Num 0 | Some n \<Rightarrow> n)"
    unfolding raw by (simp_all add: safeParseFloat_supplied split: option.splits)
  show "Net_Income r =
           (case suppliedNumber (raw_Net_Income row) of
              None \<Rightarrow> jsub (jsub (Revenue r) (COGS r)) (OPEX r)
            | Some n \<Rightarrow> n)"
    unfolding ni by (simp add: safeParseFloat_supplied split: option.splits)
  show "Region r = orDefault (raw_Region row) (js ''All'')"
    and "Product r = orDefault (raw_Product row) (js ''All'')"
    unfolding r by (simp_all add: defs split del: if_split)
qed

lemma normalizeRow_plan:
  assumes "normalizeRow row index = Inr r"
  shows "plan_Revenue r = suppliedNumber (raw_Plan_Revenue row)"
    and "plan_COGS r = suppliedNumber (raw_Plan_COGS row)"
    and "plan_OPEX r = suppliedNumber (raw_Plan_OPEX row)"
    and "plan_Non_Cash_Adjustments r =
           (case suppliedNumber (raw_Plan_Non_Cash_Adjustments row) of
              None \<Rightarrow> Non_Cash_Adjustments r | Some n \<Rightarrow> n)"
    and "plan_NetIncome r =
           (case suppliedNumber (raw_Plan_NetIncome row) of
              Some n \<Rightarrow> Some n
            | None \<Rightarrow>
                (case (plan_Revenue r, plan_COGS r, plan_OPEX r) of
                   (Some pr, Some pc, Some po) \<Rightarrow> Some (jsub (jsub pr pc) po)
                 | _ \<Rightarrow> None))"
    and "ebitdaPlan r =
           (case (plan_Revenue r, plan_COGS r, plan_OPEX r) of
              (Some pr, Some pc, Some po) \<Rightarrow>
                Some (jadd (jsub (jsub pr pc) po) (plan_Non_Cash_Adjustments r))
            | _ \<Rightarrow> None)"
proof -
  obtain y q k where pq: "parseQuarter (raw_Quarter row) = Inr (y, q, k)"
    using assms normalizeRow_Inl [of row index]
    by (cases "parseQuarter (raw_Quarter row)") auto
  have r: "r = projr (normalizeRow row index)" using assms by simp
  note defs = normalizeRow_def pq Let_def
  have raw:
    "Non_Cash_Adjustments r = the (safeParseFloat (raw_Non_Cash_Adjustments row) (Some (Num 0)))"
    "plan_Revenue r = safeParseFloat (raw_Plan_Revenue row) None"
    "plan_COGS r = safeParseFloat (raw_Plan_COGS row) None"
    "plan_OPEX r = safeParseFloat (raw_Plan_OPEX row) None"
    unfolding r by (simp_all add: defs split del: if_split)
  have pn: "plan_Non_Cash_Adjustments r =
       the (safeParseFloat (raw_Plan_Non_Cash_Adjustments row) (Some (Non_Cash_Adjustments r)))"
    unfolding raw unfolding r by (simp add: defs split del: if_split)
  have pni: "plan_NetIncome r =
           (case (safeParseFloat (raw_Plan_NetIncome row) None,
                  plan_Revenue r, plan_COGS r, plan_OPEX r) of
              (None, Some pr, Some pc, Some po) \<Rightarrow> Some (jsub (jsub pr pc) po)
            | _ \<Rightarrow> safeParseFloat (raw_Plan_NetIncome row) None)"
    unfolding raw unfolding r by (simp add: defs split del: if_split)
  show ep: "ebitdaPlan r =
           (case (plan_Revenue r, plan_COGS r, plan_OPEX r) of
              (Some pr, Some pc, Some po) \<Rightarrow>
                Some (jadd (jsub (jsub pr pc) po) (plan_Non_Cash_Adjustments r))
            | _ \<Rightarrow> None)"
    unfolding pn raw unfolding r by (simp add: defs split del: if_split)
  show "plan_Revenue r = suppliedNumber (raw_Plan_Revenue row)"
    and "plan_COGS r = suppliedNumber (raw_Plan_COGS row)"
    and "plan_OPEX r = suppliedNumber (raw_Plan_OPEX row)"
    unfolding raw by (simp_all add: safeParseFloat_supplied split: option.splits)
  show "plan_Non_Cash_Adjustments r =
           (case suppliedNumber (raw_Plan_Non_Cash_Adjustments row) of
              None \<Rightarrow> Non_Cash_Adjustments r | Some n \<Rightarrow> n)"
    unfolding pn by (simp add: safeParseFloat_supplied split: option.splits)
  show "plan_NetIncome r =
           (case suppliedNumber (raw_Plan_NetIncome row) of
              Some n \<Rightarrow> Some n
            | None \<Rightarrow>
                (case (plan_Revenue r, plan_COGS r, plan_OPEX r) of
                   (Some pr, Some pc, Some po) \<Rightarrow> Some (jsub (jsub pr pc) po)
                 | _ \<Rightarrow> None))"
    unfolding pni by (simp add: safeParseFloat_supplied split: option.splits)
qed

lemma normalizeRow_margins:
  assumes "normalizeRow row index = Inr r"
  shows "grossProfit r = jsub (Revenue r) (COGS r)"
    and "EBITDA r = jadd (jsub (jsub (Revenue r) (COGS r)) (OPEX r)) (Non_Cash_Adjustments r)"
    and "grossMargin r =
           (if isZero (Revenue r) then Num 0 else marginOf (grossProfit r) (Revenue r))"
    and "opexMargin r =
           (if isZero (Revenue r) then Num 0 else marginOf (OPEX r) (Revenue r))"
    and "EBITDA_Margin r =
           (if isZero (Revenue r) then Num 0 else marginOf (EBITDA r) (Revenue r))"
    and "netMargin r =
           (if isZero (Revenue r) then Num 0 else marginOf (Net_Income r) (Revenue r))"
proof -
  obtain y q k where pq: "parseQuarter (raw_Quarter row) = Inr (y, q, k)"
    using assms normalizeRow_Inl [of row index]
    by (cases "parseQuarter (raw_Quarter row)") auto
  have r: "r = projr (normalizeRow row index)" using assms by simp
  note defs = normalizeRow_def pq Let_def
  have raw:
    "Revenue r = the (safeParseFloat (Some (raw_Revenue row)) (Some (Num 0)))"
    "COGS r = the (safeParseFloat (Some (raw_COGS row)) (Some (Num 0)))"
    "OPEX r = the (safeParseFloat (Some (raw_OPEX row)) (Some (Num 0)))"
    "Non_Cash_Adjustments r = the (safeParseFloat (raw_Non_Cash_Adjustments row) (Some (Num 0)))"
    unfolding r by (simp_all add: defs split del: if_split)
  have raw2:
    "Net_Income r =
           (case safeParseFloat (raw_Net_Income row) None of
              None \<Rightarrow> jsub (jsub (Revenue r) (COGS r)) (OPEX r)
            | Some n \<Rightarrow> n)"
    "grossProfit r = jsub (Revenue r) (COGS r)"
    "EBITDA r = jadd (jsub (jsub (Revenue r) (COGS r)) (OPEX r)) (Non_Cash_Adjustments r)"
    unfolding raw unfolding r by (simp_all add: defs split del: if_split)
  show "grossProfit r = jsub (Revenue r) (COGS r)"
    and "EBITDA r = jadd (jsub (jsub (Revenue r) (COGS r)) (OPEX r)) (Non_Cash_Adjustments r)"
    by (rule raw2)+
  show "grossMargin r =
           (if isZero (Revenue r) then Num 0 else marginOf (grossProfit r) (Revenue r))"
    unfolding raw2 raw marginOf_def strictEq_zero [symmetric] unfolding r
    apply (simp add: defs split del: if_split)
    apply simp
    done
  show "opexMargin r =
           (if isZero (Revenue r) then Num 0 else marginOf (OPEX r) (Revenue r))"
    unfolding raw2 raw marginOf_def strictEq_zero [symmetric] unfolding r
    apply (simp add: defs split del: if_split)
    apply simp
    done
  show "EBITDA_Margin r =
           (if isZero (Revenue r) then Num 0 else marginOf (EBITDA r) (Revenue r))"
    unfolding raw2 raw marginOf_def strictEq_zero [symmetric] unfolding r
    apply (simp add: defs split del: if_split)
    apply simp
    done
  show "netMargin r =
           (if isZero (Revenue r) then Num 0 else marginOf (Net_Income r) (Revenue r))"
    unfolding raw2 raw marginOf_def strictEq_zero [symmetric] unfolding r
    apply (simp add: defs split del: if_split)
    apply simp
    done
qed

lemma normalizeRow_variances:
  assumes "normalizeRow row index = Inr r"
  shows "varianceOf (Revenue r) (plan_Revenue r) (revVarAbs r) (revVarPerc r)"
    and "varianceOf (COGS r) (plan_COGS r) (cogsVarAbs r) (cogsVarPerc r)"
    and "varianceOf (OPEX r) (plan_OPEX r) (opexVarAbs r) (opexVarPerc r)"
    and "varianceOf (EBITDA r) (ebitdaPlan r) (ebitdaVarAbs r) (ebitdaVarPerc r)"
    and "varianceOf (Net_Income r) (plan_NetIncome r) (netIncomeVarAbs r) (netIncomeVarPerc r)"
proof -
  obtain y q k where pq: "parseQuarter (raw_Quarter row) = Inr (y, q, k)"
    using assms normalizeRow_Inl [of row index]
    by (cases "parseQuarter (raw_Quarter row)") auto
  have r: "r = projr (normalizeRow row index)" using assms by simp
  note defs = normalizeRow_def pq Let_def
  have raw:
    "Revenue r = the (safeParseFloat (Some (raw_Revenue row)) (Some (Num 0)))"
    "COGS r = the (safeParseFloat (Some (raw_COGS row)) (Some (Num 0)))"
    "OPEX r = the (safeParseFloat (Some (raw_OPEX row)) (Some (Num 0)))"
    "Non_Cash_Adjustments r = the (safeParseFloat (raw_Non_Cash_Adjustments row) (Some (Num 0)))"
    "plan_Revenue r = safeParseFloat (raw_Plan_Revenue row) None"
    "plan_COGS r = safeParseFloat (raw_Plan_COGS row) None"
    "plan_OPEX r = safeParseFloat (raw_Plan_OPEX row) None"
    unfolding r by (simp_all add: defs split del: if_split)
  have raw2:
    "Net_Income r =
       (case safeParseFloat (raw_Net_Income row) None of
          None \<Rightarrow> jsub (jsub (Revenue r) (COGS r)) (OPEX r)
        | Some n \<Rightarrow> n)"
    "EBITDA r = jadd (jsub (jsub (Revenue r) (COGS r)) (OPEX r)) (Non_Cash_Adjustments r)"
    "plan_Non_Cash_Adjustments r =
       the (safeParseFloat (raw_Plan_Non_Cash_Adjustments row) (Some (Non_Cash_Adjustments r)))"
    "plan_NetIncome r =
       (case (safeParseFloat (raw_Plan_NetIncome row) None,
              plan_Revenue r, plan_COGS r, plan_OPEX r) of
          (None, Some pr, Some pc, Some po) \<Rightarrow> Some (jsub (jsub pr pc) po)
        | _ \<Rightarrow> safeParseFloat (raw_Plan_NetIncome row) None)"
    unfolding raw unfolding r by (simp_all add: defs split del: if_split)
  have raw3:
    "ebitdaPlan r =
       (case (plan_Revenue r, plan_COGS r, plan_OPEX r) of
          (Some pr, Some pc, Some po) \<Rightarrow>
            Some (jadd (jsub (jsub pr pc) po) (plan_Non_Cash_Adjustments r))
        | _ \<Rightarrow> None)"
    unfolding raw2 raw unfolding r by (simp add: defs split del: if_split)
  have a:
    "revVarAbs r = (case plan_Revenue r of None \<Rightarrow> None | Some p \<Rightarrow> Some (jsub (Revenue r) p))"
    "cogsVarAbs r = (case plan_COGS r of None \<Rightarrow> None | Some p \<Rightarrow> Some (jsub (COGS r) p))"
    "opexVarAbs r = (case plan_OPEX r of None \<Rightarrow> None | Some p \<Rightarrow> Some (jsub (OPEX r) p))"
    unfolding raw unfolding r by (simp_all add: defs split del: if_split)
  have a2:
    "ebitdaVarAbs r = (case ebitdaPlan r of None \<Rightarrow> None | Some p \<Rightarrow> Some (jsub (EBITDA r) p))"
    "netIncomeVarAbs r =
       (case plan_NetIncome r of None \<Rightarrow> None | Some p \<Rightarrow> Some (jsub (Net_Income r) p))"
    unfolding raw3 raw2 raw unfolding r by (simp_all add: defs split del: if_split)
  have p:
    "revVarPerc r =
       (case plan_Revenue r of
          None \<Rightarrow> None
        | Some p \<Rightarrow>
            if \<not> strictEq p (Num 0)
            then Some (jmul (jdiv (jsub (Revenue r) p) p) (Num 100)) else None)"
    "cogsVarPerc r =
       (case plan_COGS r of
          None \<Rightarrow> None
        | Some p \<Rightarrow>
            if \<not> strictEq p (Num 0)
            then Some (jmul (jdiv (jsub (COGS r) p) p) (Num 100)) else None)"
    "opexVarPerc r =
       (case plan_OPEX r of
          None \<Rightarrow> None
        | Some p \<Rightarrow>
            if \<not> strictEq p (Num 0)
            then Some (jmul (jdiv (jsub (OPEX r) p) p) (Num 100)) else None)"
    unfolding raw unfolding r
    by (simp_all add: defs split del: if_split) (simp_all split: option.splits)
  have p2:
    "ebitdaVarPerc r =
       (case ebitdaPlan r of
          None \<Rightarrow> None
        | Some p \<Rightarrow>
            if \<not> strictEq p (Num 0)
            then Some (jmul (jdiv (jsub (EBITDA r) p) p) (Num 100)) else None)"
    "netIncomeVarPerc r =
       (case plan_NetIncome r of
          None \<Rightarrow> None
        | Some p \<Rightarrow>
            if \<not> strictEq p (Num 0)
            then Some (jmul (jdiv (jsub (Net_Income r) p) p) (Num 100)) else None)"
    unfolding raw3 raw2 raw unfolding r
    by (simp_all add: defs split del: if_split) (simp_all split: option.splits)
  show "varianceOf (Revenue r) (plan_Revenue r) (revVarAbs r) (revVarPerc r)"
    and "varianceOf (COGS r) (plan_COGS r) (cogsVarAbs r) (cogsVarPerc r)"
    and "varianceOf (OPEX r) (plan_OPEX r) (opexVarAbs r) (opexVarPerc r)"
    unfolding varianceOf_def a p
    by (simp_all add: strictEq_zero split: option.splits)
  show "varianceOf (EBITDA r) (ebitdaPlan r) (ebitdaVarAbs r) (ebitdaVarPerc r)"
    and "varianceOf (Net_Income r) (plan_NetIncome r) (netIncomeVarAbs r) (netIncomeVarPerc r)"
    unfolding varianceOf_def a2 p2
    by (simp_all add: strictEq_zero split: option.splits)
qed

lemma output_rows:
  assumes "\<forall>row\<in>set rawData. matchesQuarter (raw_Quarter row)"
  obtains out where "processFinancialData rawData = Inr out"
    "\<forall>r\<in>set out. \<exists>index<length rawData.
        normalizeRow (rawData ! index) index = Inr (growthCleared r)"
proof -
  obtain out where out: "processFinancialData rawData = Inr out"
    using assms by (rule processFinancialData_shape)
  then show ?thesis using that output_row_origin by blast
qed

section \<open>Plan variances\<close>

text \<open>
  Claim C4. In every output row, for each of revenue, cost of goods, operating expense,
  EBITDA and net income: without a plan value both variances are null; with a plan value
  the absolute variance is actual minus plan, and the percentage variance is null when
  the plan value is zero and the absolute variance over the plan value times 100
  otherwise.
\<close>

theorem plan_variances:
  assumes "\<forall>row\<in>set rawData. matchesQuarter (raw_Quarter row)"
  shows "\<exists>out. processFinancialData rawData = Inr out \<and>
           (\<forall>r\<in>set out.
              varianceOf (Revenue r) (plan_Revenue r) (revVarAbs r) (revVarPerc r) \<and>
              varianceOf (COGS r) (plan_COGS r) (cogsVarAbs r) (cogsVarPerc r) \<and>
              varianceOf (OPEX r) (plan_OPEX r) (opexVarAbs r) (opexVarPerc r) \<and>
              varianceOf (EBITDA r) (ebitdaPlan r) (ebitdaVarAbs r) (ebitdaVarPerc r) \<and>
              varianceOf (Net_Income r) (plan_NetIncome r)
                (netIncomeVarAbs r) (netIncomeVarPerc r))"
proof -
  obtain out where out: "processFinancialData rawData = Inr out"
    and origin: "\<forall>r\<in>set out. \<exists>index<length rawData.
        normalizeRow (rawData ! index) index = Inr (growthCleared r)"
    using assms by (rule output_rows)
  have "varianceOf (Revenue r) (plan_Revenue r) (revVarAbs r) (revVarPerc r) \<and>
        varianceOf (COGS r) (plan_COGS r) (cogsVarAbs r) (cogsVarPerc r) \<and>
        varianceOf (OPEX r) (plan_OPEX r) (opexVarAbs r) (opexVarPerc r) \<and>
        varianceOf (EBITDA r) (ebitdaPlan r) (ebitdaVarAbs r) (ebitdaVarPerc r) \<and>
        varianceOf (Net_Income r) (plan_NetIncome r) (netIncomeVarAbs r) (netIncomeVarPerc r)"
    if rin: "r \<in> set out" for r
  proof -
    obtain index where n: "normalizeRow (rawData ! index) index = Inr (growthCleared r)"
      using origin rin by blast
    show ?thesis using normalizeRow_variances [OF n] by simp
  qed
  then show ?thesis using out by blast
qed

theorem plan_variances_witness:
  "(\<exists>out. processFinancialData planBatch = Inr out \<and>
      (\<forall>r\<in>set out.
         varianceOf (Revenue r) (plan_Revenue r) (revVarAbs r) (revVarPerc r) \<and>
         varianceOf (COGS r) (plan_COGS r) (cogsVarAbs r) (cogsVarPerc r) \<and>
         varianceOf (OPEX r) (plan_OPEX r) (opexVarAbs r) (opexVarPerc r) \<and>
         varianceOf (EBITDA r) (ebitdaPlan r) (ebitdaVarAbs r) (ebitdaVarPerc r) \<and>
         varianceOf (Net_Income r) (plan_NetIncome r)
           (netIncomeVarAbs r) (netIncomeVarPerc r))) \<and>
   map_sum id (map (\<lambda>r. (plan_Revenue r, revVarAbs r, revVarPerc r, plan_COGS r, cogsVarAbs r,
       cogsVarPerc r, plan_OPEX r, opexVarAbs r, opexVarPerc r)))
     (processFinancialData planBatch) =
     Inr [(Some (Num 0), Some (Num 100), None, None, None, None,
           Some (Num 25), Some (Num (- 5)), Some (Num (- 20)))]"
proof
  have "\<forall>row\<in>set planBatch. matchesQuarter (raw_Quarter row)"
    by (simp add: planBatch_def exampleRow_def matchesQuarter_def js_def isDigit_def)
  then show "\<exists>out. processFinancialData planBatch = Inr out \<and>
      (\<forall>r\<in>set out.
         varianceOf (Revenue r) (plan_Revenue r) (revVarAbs r) (revVarPerc r) \<and>
         varianceOf (COGS r) (plan_COGS r) (cogsVarAbs r) (cogsVarPerc r) \<and>
         varianceOf (OPEX r) (plan_OPEX r) (opexVarAbs r) (opexVarPerc r) \<and>
         varianceOf (EBITDA r) (ebitdaPlan r) (ebitdaVarAbs r) (ebitdaVarPerc r) \<and>
         varianceOf (Net_Income r) (plan_NetIncome r)
           (netIncomeVarAbs r) (netIncomeVarPerc r))"
    by (rule plan_variances)
next
  show "map_sum id (map (\<lambda>r. (plan_Revenue r, revVarAbs r, revVarPerc r, plan_COGS r, cogsVarAbs r,
       cogsVarPerc r, plan_OPEX r, opexVarAbs r, opexVarPerc r)))
     (processFinancialData planBatch) =
     Inr [(Some (Num 0), Some (Num 100), None, None, None, None,
           Some (Num 25), Some (Num (- 5)), Some (Num (- 20)))]"
    unfolding planBatch_def by code_simp
qed

section \<open>Net income\<close>

text \<open>
  Claim C5. Every output row comes from an input row whose net-income field decides its
  net income: when that field is absent, blank or does not begin with a number, the net
  income is revenue minus cost of goods minus operating expense, each as coerced (the
  supplied number, or 0 without one); otherwise it is the number the field supplies. A
  row with revenue 100, cost of goods 40, operating expense 20 and no net-income column
  has net income 40 and net margin 40.
\<close>

theorem net_income_resolution:
  assumes "\<forall>row\<in>set rawData. matchesQuarter (raw_Quarter row)"
  shows "(\<exists>out. processFinancialData rawData = Inr out \<and>
            (\<forall>r\<in>set out. \<exists>index<length rawData.
               normalizeRow (rawData ! index) index = Inr (growthCleared r) \<and>
               Revenue r =
                 (case suppliedNumber (Some (raw_Revenue (rawData ! index))) of
                    None \<Rightarrow> Num 0 | Some n \<Rightarrow> n) \<and>
               COGS r =
                 (case suppliedNumber (Some (raw_COGS (rawData ! index))) of
                    None \<Rightarrow> Num 0 | Some n \<Rightarrow> n) \<and>
               OPEX r =
                 (case suppliedNumber (Some (raw_OPEX (rawData ! index))) of
                    None \<Rightarrow> Num 0 | Some n \<Rightarrow> n) \<and>
               Net_Income r =
                 (case suppliedNumber (raw_Net_Income (rawData ! index)) of
                    None \<Rightarrow> jsub (jsub (Revenue r) (COGS r)) (OPEX r)
                  | Some n \<Rightarrow> n))) \<and>
         (\<forall>s. trim s = [] \<longrightarrow> suppliedNumber (Some s) = None) \<and>
         map_sum id (map (\<lambda>r. (Net_Income r, netMargin r))) (processFinancialData singleBatch) =
           Inr [(Num 40, Num 40)]"
proof (intro conjI allI impI)
  obtain out where out: "processFinancialData rawData = Inr out"
    and origin: "\<forall>r\<in>set out. \<exists>index<length rawData.
        normalizeRow (rawData ! index) index = Inr (growthCleared r)"
    using assms by (rule output_rows)
  have "\<exists>index<length rawData.
          normalizeRow (rawData ! index) index = Inr (growthCleared r) \<and>
          Revenue r =
            (case suppliedNumber (Some (raw_Revenue (rawData ! index))) of
               None \<Rightarrow> Num 0 | Some n \<Rightarrow> n) \<and>
          COGS r =
            (case suppliedNumber (Some (raw_COGS (rawData ! index))) of
               None \<Rightarrow> Num 0 | Some n \<Rightarrow> n) \<and>
          OPEX r =
            (case suppliedNumber (Some (raw_OPEX (rawData ! index))) of
               None \<Rightarrow> Num 0 | Some n \<Rightarrow> n) \<and>
          Net_Income r =
            (case suppliedNumber (raw_Net_Income (rawData ! index)) of
               None \<Rightarrow> jsub (jsub (Revenue r) (COGS r)) (OPEX r)
             | Some n \<Rightarrow> n)"
    if rin: "r \<in> set out" for r
  proof -
    obtain index where i: "index < length rawData"
      and n: "normalizeRow (rawData ! index) index = Inr (growthCleared r)"
      using origin rin by blast
    show ?thesis
      using i n normalizeRow_actuals(1-3,5) [OF n, unfolded growthCleared_fields] by blast
  qed
  then show "\<exists>out. processFinancialData rawData = Inr out \<and>
            (\<forall>r\<in>set out. \<exists>index<length rawData.
               normalizeRow (rawData ! index) index = Inr (growthCleared r) \<and>
               Revenue r =
                 (case suppliedNumber (Some (raw_Revenue (rawData ! index))) of
                    None \<Rightarrow> Num 0 | Some n \<Rightarrow> n) \<and>
               COGS r =
                 (case suppliedNumber (Some (raw_COGS (rawData ! index))) of
                    None \<Rightarrow> Num 0 | Some n \<Rightarrow> n) \<and>
               OPEX r =
                 (case suppliedNumber (Some (raw_OPEX (rawData ! index))) of
                    None \<Rightarrow> Num 0 | Some n \<Rightarrow> n) \<and>
               Net_Income r =
                 (case suppliedNumber (raw_Net_Income (rawData ! index)) of
                    None \<Rightarrow> jsub (jsub (Revenue r) (COGS r)) (OPEX r)
                  | Some n \<Rightarrow> n))"
    using out by blast
next
  fix s :: js_string
  assume "trim s = []"
  then show "suppliedNumber (Some s) = None"
    by (simp add: suppliedNumber_def leadingNumber_def trim_empty_iff scanStrDecimalLiteral_Nil)
next
  show "map_sum id (map (\<lambda>r. (Net_Income r, netMargin r))) (processFinancialData singleBatch) =
           Inr [(Num 40, Num 40)]"
    unfolding singleBatch_def by code_simp
qed


theorem net_income_resolution_witness:
  "\<exists>out. processFinancialData singleBatch = Inr out \<and>
     (\<forall>r\<in>set out. \<exists>index<length singleBatch.
        normalizeRow (singleBatch ! index) index = Inr (growthCleared r) \<and>
        Revenue r =
          (case suppliedNumber (Some (raw_Revenue (singleBatch ! index))) of
             None \<Rightarrow> Num 0 | Some n \<Rightarrow> n) \<and>
        COGS r =
          (case suppliedNumber (Some (raw_COGS (singleBatch ! index))) of
             None \<Rightarrow> Num 0 | Some n \<Rightarrow> n) \<and>
        OPEX r =
          (case suppliedNumber (Some (raw_OPEX (singleBatch ! index))) of
             None \<Rightarrow> Num 0 | Some n \<Rightarrow> n) \<and>
        Net_Income r =
          (case suppliedNumber (raw_Net_Income (singleBatch ! index)) of
             None \<Rightarrow> jsub (jsub (Revenue r) (COGS r)) (OPEX r)
           | Some n \<Rightarrow> n))"
proof -
  have "\<forall>row\<in>set singleBatch. matchesQuarter (raw_Quarter row)"
    by (simp add: singleBatch_def exampleRow_def matchesQuarter_def js_def isDigit_def)
  from net_income_resolution [OF this, THEN conjunct1] show ?thesis .
qed

section \<open>Plan fields\<close>

text \<open>
  Claim C6. Every output row comes from an input row such that: plan revenue, plan cost of
  goods and plan operating expense are the numbers their fields supply, null without
  one; plan non-cash adjustments are the supplied number, and the row's actual non-cash
  adjustments without one; plan net income is the supplied number if there is one, else
  plan revenue minus plan cost of goods minus plan operating expense when all three are
  present, else null; plan EBITDA is plan revenue minus plan cost of goods minus plan
  operating expense plus plan non-cash adjustments when all three are present, else null.
\<close>

theorem plan_resolution:
  assumes "\<forall>row\<in>set rawData. matchesQuarter (raw_Quarter row)"
  shows "\<exists>out. processFinancialData rawData = Inr out \<and>
           (\<forall>r\<in>set out. \<exists>index<length rawData.
              normalizeRow (rawData ! index) index = Inr (growthCleared r) \<and>
              plan_Revenue r = suppliedNumber (raw_Plan_Revenue (rawData ! index)) \<and>
              plan_COGS r = suppliedNumber (raw_Plan_COGS (rawData ! index)) \<and>
              plan_OPEX r = suppliedNumber (raw_Plan_OPEX (rawData ! index)) \<and>
              plan_Non_Cash_Adjustments r =
                (case suppliedNumber (raw_Plan_Non_Cash_Adjustments (rawData ! index)) of
                   None \<Rightarrow> Non_Cash_Adjustments r | Some n \<Rightarrow> n) \<and>
              plan_NetIncome r =
                (case suppliedNumber (raw_Plan_NetIncome (rawData ! index)) of
                   Some n \<Rightarrow> Some n
                 | None \<Rightarrow>
                     (case (plan_Revenue r, plan_COGS r, plan_OPEX r) of
                        (Some pr, Some pc, Some po) \<Rightarrow> Some (jsub (jsub pr pc) po)
                      | _ \<Rightarrow> None)) \<and>
              ebitdaPlan r =
                (case (plan_Revenue r, plan_COGS r, plan_OPEX r) of
                   (Some pr, Some pc, Some po) \<Rightarrow>
                     Some (jadd (jsub (jsub pr pc) po) (plan_Non_Cash_Adjustments r))
                 | _ \<Rightarrow> None))"
proof -
  obtain out where out: "processFinancialData rawData = Inr out"
    and origin: "\<forall>r\<in>set out. \<exists>index<length rawData.
        normalizeRow (rawData ! index) index = Inr (growthCleared r)"
    using assms by (rule output_rows)
  have "\<exists>index<length rawData.
              normalizeRow (rawData ! index) index = Inr (growthCleared r) \<and>
              plan_Revenue r = suppliedNumber (raw_Plan_Revenue (rawData ! index)) \<and>
              plan_COGS r = suppliedNumber (raw_Plan_COGS (rawData ! index)) \<and>
              plan_OPEX r = suppliedNumber (raw_Plan_OPEX (rawData ! index)) \<and>
              plan_Non_Cash_Adjustments r =
                (case suppliedNumber (raw_Plan_Non_Cash_Adjustments (rawData ! index)) of
                   None \<Rightarrow> Non_Cash_Adjustments r | Some n \<Rightarrow> n) \<and>
              plan_NetIncome r =
                (case suppliedNumber (raw_Plan_NetIncome (rawData ! index)) of
                   Some n \<Rightarrow> Some n
                 | None \<Rightarrow>
                     (case (plan_Revenue r, plan_COGS r, plan_OPEX r) of
                        (Some pr, Some pc, Some po) \<Rightarrow> Some (jsub (jsub pr pc) po)
                      | _ \<Rightarrow> None)) \<and>
              ebitdaPlan r =
                (case (plan_Revenue r, plan_COGS r, plan_OPEX r) of
                   (Some pr, Some pc, Some po) \<Rightarrow>
                     Some (jadd (jsub (jsub pr pc) po) (plan_Non_Cash_Adjustments r))
                 | _ \<Rightarrow> None)"
    if rin: "r \<in> set out" for r
  proof -
    obtain index where i: "index < length rawData"
      and n: "normalizeRow (rawData ! index) index = Inr (growthCleared r)"
      using origin rin by blast
    show ?thesis
      using i n normalizeRow_plan [OF n, unfolded growthCleared_fields] by blast
  qed
  then show ?thesis using out by blast
qed

theorem plan_resolution_witness:
  "(\<exists>out. processFinancialData fullPlanBatch = Inr out \<and>
           (\<forall>r\<in>set out. \<exists>index<length fullPlanBatch.
              normalizeRow (fullPlanBatch ! index) index = Inr (growthCleared r) \<and>
              plan_Revenue r = suppliedNumber (raw_Plan_Revenue (fullPlanBatch ! index)) \<and>
              plan_COGS r = suppliedNumber (raw_Plan_COGS (fullPlanBatch ! index)) \<and>
              plan_OPEX r = suppliedNumber (raw_Plan_OPEX (fullPlanBatch ! index)) \<and>
              plan_Non_Cash_Adjustments r =
                (case suppliedNumber (raw_Plan_Non_Cash_Adjustments (fullPlanBatch ! index)) of
                   None \<Rightarrow> Non_Cash_Adjustments r | Some n \<Rightarrow> n) \<and>
              plan_NetIncome r =
                (case suppliedNumber (raw_Plan_NetIncome (fullPlanBatch ! index)) of
                   Some n \<Rightarrow> Some n
                 | None \<Rightarrow>
                     (case (plan_Revenue r, plan_COGS r, plan_OPEX r) of
                        (Some pr, Some pc, Some po) \<Rightarrow> Some (jsub (jsub pr pc) po)
                      | _ \<Rightarrow> None)) \<and>
              ebitdaPlan r =
                (case (plan_Revenue r, plan_COGS r, plan_OPEX r) of
                   (Some pr, Some pc, Some po) \<Rightarrow>
                     Some (jadd (jsub (jsub pr pc) po) (plan_Non_Cash_Adjustments r))
                 | _ \<Rightarrow> None))) \<and>
   map_sum id (map (\<lambda>r. (plan_Revenue r, plan_COGS r, plan_OPEX r, plan_Non_Cash_Adjustments r,
       plan_NetIncome r, ebitdaPlan r))) (processFinancialData fullPlanBatch) =
     Inr [(Some (Num 90), Some (Num 35), Some (Num 25), Num 5, Some (Num 30), Some (Num 35))]"
proof
  have "\<forall>row\<in>set fullPlanBatch. matchesQuarter (raw_Quarter row)"
    by (simp add: fullPlanBatch_def exampleRow_def matchesQuarter_def js_def isDigit_def)
  then show "\<exists>out. processFinancialData fullPlanBatch = Inr out \<and>
           (\<forall>r\<in>set out. \<exists>index<length fullPlanBatch.
              normalizeRow (fullPlanBatch ! index) index = Inr (growthCleared r) \<and>
              plan_Revenue r = suppliedNumber (raw_Plan_Revenue (fullPlanBatch ! index)) \<and>
              plan_COGS r = suppliedNumber (raw_Plan_COGS (fullPlanBatch ! index)) \<and>
              plan_OPEX r = suppliedNumber (raw_Plan_OPEX (fullPlanBatch ! index)) \<and>
              plan_Non_Cash_Adjustments r =
                (case suppliedNumber (raw_Plan_Non_Cash_Adjustments (fullPlanBatch ! index)) of
                   None \<Rightarrow> Non_Cash_Adjustments r | Some n \<Rightarrow> n) \<and>
              plan_NetIncome r =
                (case suppliedNumber (raw_Plan_NetIncome (fullPlanBatch ! index)) of
                   Some n \<Rightarrow> Some n
                 | None \<Rightarrow>
                     (case (plan_Revenue r, plan_COGS r, plan_OPEX r) of
                        (Some pr, Some pc, Some po) \<Rightarrow> Some (jsub (jsub pr pc) po)
                      | _ \<Rightarrow> None)) \<and>
              ebitdaPlan r =
                (case (plan_Revenue r, plan_COGS r, plan_OPEX r) of
                   (Some pr, Some pc, Some po) \<Rightarrow>
                     Some (jadd (jsub (jsub pr pc) po) (plan_Non_Cash_Adjustments r))
                 | _ \<Rightarrow> None))"
    by (rule plan_resolution)
next
  show "map_sum id (map (\<lambda>r. (plan_Revenue r, plan_COGS r, plan_OPEX r, plan_Non_Cash_Adjustments r,
       plan_NetIncome r, ebitdaPlan r))) (processFinancialData fullPlanBatch) =
     Inr [(Some (Num 90), Some (Num 35), Some (Num 25), Num 5, Some (Num 30), Some (Num 35))]"
    unfolding fullPlanBatch_def by code_simp
qed

section \<open>Margins\<close>

text \<open>
  Claim C7. In every output row whose revenue is zero (of either sign) the gross, operating
  expense, EBITDA and net margins are the positive zero, a finite number; in every other
  row each margin is its numerator (gross profit, operating expense, EBITDA, net income)
  divided by the revenue, times 100.
\<close>

theorem margins_zero_safe:
  assumes "\<forall>row\<in>set rawData. matchesQuarter (raw_Quarter row)"
  shows "\<exists>out. processFinancialData rawData = Inr out \<and>
           (\<forall>r\<in>set out.
              grossProfit r = jsub (Revenue r) (COGS r) \<and>
              EBITDA r =
                jadd (jsub (jsub (Revenue r) (COGS r)) (OPEX r)) (Non_Cash_Adjustments r) \<and>
              (isZero (Revenue r) \<longrightarrow>
                 grossMargin r = Num 0 \<and> opexMargin r = Num 0 \<and>
                 EBITDA_Margin r = Num 0 \<and> netMargin r = Num 0 \<and>
                 isFinite (grossMargin r) \<and> isFinite (opexMargin r) \<and>
                 isFinite (EBITDA_Margin r) \<and> isFinite (netMargin r)) \<and>
              (\<not> isZero (Revenue r) \<longrightarrow>
                 grossMargin r = marginOf (grossProfit r) (Revenue r) \<and>
                 opexMargin r = marginOf (OPEX r) (Revenue r) \<and>
                 EBITDA_Margin r = marginOf (EBITDA r) (Revenue r) \<and>
                 netMargin r = marginOf (Net_Income r) (Revenue r)))"
proof -
  obtain out where out: "processFinancialData rawData = Inr out"
    and origin: "\<forall>r\<in>set out. \<exists>index<length rawData.
        normalizeRow (rawData ! index) index = Inr (growthCleared r)"
    using assms by (rule output_rows)
  have "grossProfit r = jsub (Revenue r) (COGS r) \<and>
        EBITDA r = jadd (jsub (jsub (Revenue r) (COGS r)) (OPEX r)) (Non_Cash_Adjustments r) \<and>
        (isZero (Revenue r) \<longrightarrow>
           grossMargin r = Num 0 \<and> opexMargin r = Num 0 \<and>
           EBITDA_Margin r = Num 0 \<and> netMargin r = Num 0 \<and>
           isFinite (grossMargin r) \<and> isFinite (opexMargin r) \<and>
           isFinite (EBITDA_Margin r) \<and> isFinite (netMargin r)) \<and>
        (\<not> isZero (Revenue r) \<longrightarrow>
           grossMargin r = marginOf (grossProfit r) (Revenue r) \<and>
           opexMargin r = marginOf (OPEX r) (Revenue r) \<and>
           EBITDA_Margin r = marginOf (EBITDA r) (Revenue r) \<and>
           netMargin r = marginOf (Net_Income r) (Revenue r))"
    if rin: "r \<in> set out" for r
  proof -
    obtain index where n: "normalizeRow (rawData ! index) index = Inr (growthCleared r)"
      using origin rin by blast
    show ?thesis
      using normalizeRow_margins [OF n, unfolded growthCleared_fields]
      by (simp add: isFinite_def isNaN_def isInf_def)
  qed
  then show ?thesis using out by blast
qed

theorem margins_zero_safe_witness:
  "(\<exists>out. processFinancialData zeroRevenueBatch = Inr out \<and>
           (\<forall>r\<in>set out.
              grossProfit r = jsub (Revenue r) (COGS r) \<and>
              EBITDA r =
                jadd (jsub (jsub (Revenue r) (COGS r)) (OPEX r)) (Non_Cash_Adjustments r) \<and>
              (isZero (Revenue r) \<longrightarrow>
                 grossMargin r = Num 0 \<and> opexMargin r = Num 0 \<and>
                 EBITDA_Margin r = Num 0 \<and> netMargin r = Num 0 \<and>
                 isFinite (grossMargin r) \<and> isFinite (opexMargin r) \<and>
                 isFinite (EBITDA_Margin r) \<and> isFinite (netMargin r)) \<and>
              (\<not> isZero (Revenue r) \<longrightarrow>
                 grossMargin r = marginOf (grossProfit r) (Revenue r) \<and>
                 opexMargin r = marginOf (OPEX r) (Revenue r) \<and>
                 EBITDA_Margin r = marginOf (EBITDA r) (Revenue r) \<and>
                 netMargin r = marginOf (Net_Income r) (Revenue r)))) \<and>
   map_sum id (map (\<lambda>r. (Revenue r, grossMargin r, opexMargin r, EBITDA_Margin r, netMargin r)))
       (processFinancialData zeroRevenueBatch) =
     Inr [(NegZero, Num 0, Num 0, Num 0, Num 0), (Num 0, Num 0, Num 0, Num 0, Num 0)]"
proof
  have "\<forall>row\<in>set zeroRevenueBatch. matchesQuarter (raw_Quarter row)"
    by (simp add: zeroRevenueBatch_def exampleRow_def matchesQuarter_def js_def isDigit_def)
  then show "\<exists>out. processFinancialData zeroRevenueBatch = Inr out \<and>
           (\<forall>r\<in>set out.
              grossProfit r = jsub (Revenue r) (COGS r) \<and>
              EBITDA r =
                jadd (jsub (jsub (Revenue r) (COGS r)) (OPEX r)) (Non_Cash_Adjustments r) \<and>
              (isZero (Revenue r) \<longrightarrow>
                 grossMargin r = Num 0 \<and> opexMargin r = Num 0 \<and>
                 EBITDA_Margin r = Num 0 \<and> netMargin r = Num 0 \<and>
                 isFinite (grossMargin r) \<and> isFinite (opexMargin r) \<and>
                 isFinite (EBITDA_Margin r) \<and> isFinite (netMargin r)) \<and>
              (\<not> isZero (Revenue r) \<longrightarrow>
                 grossMargin r = marginOf (grossProfit r) (Revenue r) \<and>
                 opexMargin r = marginOf (OPEX r) (Revenue r) \<and>
                 EBITDA_Margin r = marginOf (EBITDA r) (Revenue r) \<and>
                 netMargin r = marginOf (Net_Income r) (Revenue r)))"
    by (rule margins_zero_safe)
next
  show "map_sum id (map (\<lambda>r. (Revenue r, grossMargin r, opexMargin r, EBITDA_Margin r, netMargin r)))
       (processFinancialData zeroRevenueBatch) =
     Inr [(NegZero, Num 0, Num 0, Num 0, Num 0), (Num 0, Num 0, Num 0, Num 0, Num 0)]"
    unfolding zeroRevenueBatch_def by code_simp
qed

section \<open>The second pass\<close>

lemma enrichRow_fields [simp]:
  "Year (enrichRow arr index r) = Year r"
  "quarterIndex (enrichRow arr index r) = quarterIndex r"
  "Region (enrichRow arr index r) = Region r"
  "Product (enrichRow arr index r) = Product r"
  "Revenue (enrichRow arr index r) = Revenue r"
  "Net_Income (enrichRow arr index r) = Net_Income r"
  by (simp_all add: enrichRow_def Let_def)

lemma arrayGet_previous:
  assumes "i < length arr"
  shows "arrayGet arr (int i - 1) = (if 0 < i then Some (arr ! (i - 1)) else None)"
  using assms by (auto simp add: arrayGet_def nat_diff_distrib')

lemma enrichRow_qoq:
  assumes "i < length arr"
  shows "qoqRevenueGrowth (enrichRow arr i r) =
           (if 0 < i \<and> \<not> isZero (Revenue (arr ! (i - 1)))
            then Some (growthPercent (Revenue r) (Revenue (arr ! (i - 1)))) else None)"
    and "qoqNetIncomeGrowth (enrichRow arr i r) =
           (if 0 < i \<and> \<not> isZero (Net_Income (arr ! (i - 1)))
            then Some (growthPercent (Net_Income r) (Net_Income (arr ! (i - 1)))) else None)"
  by (simp_all add: enrichRow_def Let_def arrayGet_previous [OF assms] growthPercent_def
        strictEq_zero)

lemma enrichRow_yoy:
  "yoyRevenueGrowth (enrichRow arr i r) =
     (case find (\<lambda>d. strictEq (Year d) (jsub (Year r) (Num 1)) \<and>
                     strictEq (quarterIndex d) (quarterIndex r) \<and>
                     Region d = Region r \<and> Product d = Product r) arr of
        None \<Rightarrow> None
      | Some p \<Rightarrow>
          if isZero (Revenue p) then None
          else Some (growthPercent (Revenue r) (Revenue p)))"
  "yoyNetIncomeGrowth (enrichRow arr i r) =
     (case find (\<lambda>d. strictEq (Year d) (jsub (Year r) (Num 1)) \<and>
                     strictEq (quarterIndex d) (quarterIndex r) \<and>
                     Region d = Region r \<and> Product d = Product r) arr of
        None \<Rightarrow> None
      | Some p \<Rightarrow>
          if isZero (Net_Income p) then None
          else Some (growthPercent (Net_Income r) (Net_Income p)))"
  by (simp_all add: enrichRow_def Let_def growthPercent_def strictEq_zero split: option.splits)

text \<open>On rows with exact period fields the comparison of the source is the plain one.\<close>

lemma strictEq_Num: "strictEq (Num a) (Num b) \<longleftrightarrow> a = b"
  by (auto simp add: strictEq_def isNaN_def isZero_def)

lemma previous_year:
  assumes "periodOK d" "periodOK r"
  shows "strictEq (Year d) (jsub (Year r) (Num 1)) \<longleftrightarrow> val (Year d) = val (Year r) - 1"
proof -
  obtain y where y: "0 \<le> y" "y \<le> 9999" "Year r = Num (of_int y)"
    using assms(2) unfolding periodOK_def by blast
  obtain y' where y': "Year d = Num (of_int y')"
    using assms(1) unfolding periodOK_def by blast
  have e: "(of_int y :: real) - 1 = of_int (y - 1)" by simp
  have "y \<noteq> 1 \<Longrightarrow> round64 (of_int (y - 1)) = Num (of_int (y - 1))"
    using y by (intro round64_of_int) simp_all
  then have "jsub (Num (of_int y)) (Num 1) = Num (of_int y - 1)"
    unfolding jsub_Num [of 1 "of_int y", simplified] e by auto
  then show ?thesis by (simp add: y y' strictEq_Num)
qed

lemma same_quarter:
  assumes "periodOK d" "periodOK r"
  shows "strictEq (quarterIndex d) (quarterIndex r) \<longleftrightarrow> quarterIndex d = quarterIndex r"
  using assms unfolding periodOK_def by (auto simp add: strictEq_Num)

section \<open>Quarter-over-quarter growth\<close>

text \<open>
  Claim C2. In the output, the quarter-over-quarter revenue growth of the row at position
  \<open>i\<close> is (its revenue minus the revenue of the row at position \<open>i - 1\<close>) divided by
  that revenue, times 100, when \<open>i > 0\<close> and that revenue is not zero, and null
  otherwise, whatever the segments of the two rows; likewise for net income. Three
  consecutive quarters with revenues 100, 110 and 90 give null, 10 and the number
  \<open>-18.181818181818183\<close>.
\<close>

theorem qoq_growth:
  assumes "\<forall>row\<in>set rawData. matchesQuarter (raw_Quarter row)"
  shows "(\<exists>out. processFinancialData rawData = Inr out \<and>
            (\<forall>i<length out.
               qoqRevenueGrowth (out ! i) =
                 (if 0 < i \<and> \<not> isZero (Revenue (out ! (i - 1)))
                  then Some (growthPercent (Revenue (out ! i)) (Revenue (out ! (i - 1))))
                  else None) \<and>
               qoqNetIncomeGrowth (out ! i) =
                 (if 0 < i \<and> \<not> isZero (Net_Income (out ! (i - 1)))
                  then Some (growthPercent (Net_Income (out ! i)) (Net_Income (out ! (i - 1))))
                  else None))) \<and>
         map_sum id (map qoqRevenueGrowth) (processFinancialData qoqBatch) =
           Inr [None, Some (Num 10), Some (parseFloat (js ''-18.181818181818183''))]"
proof
  let ?f = "\<lambda>r. val (sortKey r)"
  obtain norm arr where
    run: "processFinancialData rawData =
            Inr (map (\<lambda>(index, currentRow). enrichRow arr index currentRow) (enumerate 0 arr))"
    using assms by (rule processFinancialData_shape)
  define out where "out = map (\<lambda>(index, currentRow). enrichRow arr index currentRow) (enumerate 0 arr)"
  have len: "length out = length arr" by (simp add: out_def)
  have nth: "out ! i = enrichRow arr i (arr ! i)" if "i < length arr" for i
    using that by (simp add: out_def nth_enumerate_eq)
  have "qoqRevenueGrowth (out ! i) =
          (if 0 < i \<and> \<not> isZero (Revenue (out ! (i - 1)))
           then Some (growthPercent (Revenue (out ! i)) (Revenue (out ! (i - 1))))
           else None) \<and>
        qoqNetIncomeGrowth (out ! i) =
          (if 0 < i \<and> \<not> isZero (Net_Income (out ! (i - 1)))
           then Some (growthPercent (Net_Income (out ! i)) (Net_Income (out ! (i - 1))))
           else None)"
    if i: "i < length out" for i
  proof -
    have i': "i < length arr" "i - 1 < length arr" using i len by simp_all
    show ?thesis
      unfolding nth [OF i'(1)] nth [OF i'(2)] enrichRow_qoq [OF i'(1)] by simp
  qed
  then show "\<exists>out. processFinancialData rawData = Inr out \<and>
            (\<forall>i<length out.
               qoqRevenueGrowth (out ! i) =
                 (if 0 < i \<and> \<not> isZero (Revenue (out ! (i - 1)))
                  then Some (growthPercent (Revenue (out ! i)) (Revenue (out ! (i - 1))))
                  else None) \<and>
               qoqNetIncomeGrowth (out ! i) =
                 (if 0 < i \<and> \<not> isZero (Net_Income (out ! (i - 1)))
                  then Some (growthPercent (Net_Income (out ! i)) (Net_Income (out ! (i - 1))))
                  else None))"
    using run unfolding out_def [symmetric] by blast
next
  show "map_sum id (map qoqRevenueGrowth) (processFinancialData qoqBatch) =
           Inr [None, Some (Num 10), Some (parseFloat (js ''-18.181818181818183''))]"
    unfolding qoqBatch_def by code_simp
qed

theorem qoq_growth_witness:
  "\<exists>out. processFinancialData yoyBatch = Inr out \<and>
     (\<forall>i<length out.
        qoqRevenueGrowth (out ! i) =
          (if 0 < i \<and> \<not> isZero (Revenue (out ! (i - 1)))
           then Some (growthPercent (Revenue (out ! i)) (Revenue (out ! (i - 1))))
           else None) \<and>
        qoqNetIncomeGrowth (out ! i) =
          (if 0 < i \<and> \<not> isZero (Net_Income (out ! (i - 1)))
           then Some (growthPercent (Net_Income (out ! i)) (Net_Income (out ! (i - 1))))
           else None))"
proof -
  have "\<forall>row\<in>set yoyBatch. matchesQuarter (raw_Quarter row)"
    by (simp add: yoyBatch_def exampleRow_def matchesQuarter_def js_def isDigit_def)
  from qoq_growth [OF this, THEN conjunct1] show ?thesis .
qed

lemma find_enriched:
  assumes "\<And>i x. P (enrichRow arr i x) = P x"
  shows "find P (map (\<lambda>(index, currentRow). enrichRow arr index currentRow) (enumerate n xs)) = None
           \<longleftrightarrow> find P xs = None"
    and "find P (map (\<lambda>(index, currentRow). enrichRow arr index currentRow) (enumerate n xs)) = Some p
           \<Longrightarrow> \<exists>j y. find P xs = Some y \<and> p = enrichRow arr j y"
  using assms by (induction xs arbitrary: n) (auto split: if_splits)

section \<open>Year-over-year growth\<close>

text \<open>
  Claim C3. For every output row, let the peer be the first output row, in output order,
  whose year is the row's year minus 1 and whose quarter index, region and product are
  the row's. Without a peer the year-over-year revenue growth is null; with a peer it is
  null when the peer's revenue is zero and (revenue minus the peer's revenue) divided by
  the peer's revenue, times 100, otherwise; likewise for net income. With
  \<open>Q1-2023 East Soap 100\<close>, \<open>Q1-2024 East Soap 120\<close> and \<open>Q1-2024 West Soap 130\<close> the
  growths are null, 20 and null.
\<close>

theorem yoy_growth:
  assumes "\<forall>row\<in>set rawData. matchesQuarter (raw_Quarter row)"
  shows "(\<exists>out. processFinancialData rawData = Inr out \<and>
            (\<forall>r\<in>set out.
               yoyRevenueGrowth r =
                 (case find (yearEarlierPeer r) out of
                    None \<Rightarrow> None
                  | Some p \<Rightarrow>
                      if isZero (Revenue p) then None
                      else Some (growthPercent (Revenue r) (Revenue p))) \<and>
               yoyNetIncomeGrowth r =
                 (case find (yearEarlierPeer r) out of
                    None \<Rightarrow> None
                  | Some p \<Rightarrow>
                      if isZero (Net_Income p) then None
                      else Some (growthPercent (Net_Income r) (Net_Income p))))) \<and>
         map_sum id (map yoyRevenueGrowth) (processFinancialData yoyBatch) =
           Inr [None, Some (Num 20), None]"
proof
  let ?f = "\<lambda>r. val (sortKey r)"
  obtain norm arr where ok: "\<forall>r\<in>set norm. periodOK r"
    and arr: "arr = sort_key ?f norm"
    and run: "processFinancialData rawData =
            Inr (map (\<lambda>(index, currentRow). enrichRow arr index currentRow) (enumerate 0 arr))"
    using assms by (rule processFinancialData_shape)
  define out where "out = map (\<lambda>(index, currentRow). enrichRow arr index currentRow) (enumerate 0 arr)"
  have ok_arr: "\<forall>r\<in>set arr. periodOK r" using ok by (simp add: arr)
  have "yoyRevenueGrowth r =
          (case find (yearEarlierPeer r) out of
             None \<Rightarrow> None
           | Some p \<Rightarrow>
               if isZero (Revenue p) then None
               else Some (growthPercent (Revenue r) (Revenue p))) \<and>
        yoyNetIncomeGrowth r =
          (case find (yearEarlierPeer r) out of
             None \<Rightarrow> None
           | Some p \<Rightarrow>
               if isZero (Net_Income p) then None
               else Some (growthPercent (Net_Income r) (Net_Income p)))"
    if rin: "r \<in> set out" for r
  proof -
    obtain i where i: "i < length arr" and r: "r = enrichRow arr i (arr ! i)"
      using rin unfolding out_def by (auto simp add: in_set_conv_nth nth_enumerate_eq)
    let ?c = "arr ! i"
    have okc: "periodOK ?c" using ok_arr i by simp
    let ?src = "\<lambda>d. strictEq (Year d) (jsub (Year ?c) (Num 1)) \<and>
                     strictEq (quarterIndex d) (quarterIndex ?c) \<and>
                     Region d = Region ?c \<and> Product d = Product ?c"
    have agree: "?src d = yearEarlierPeer r d" if "d \<in> set arr" for d
      using that ok_arr okc previous_year [of d ?c] same_quarter [of d ?c]
      by (simp add: yearEarlierPeer_def r)
    have src: "find ?src arr = find (yearEarlierPeer r) arr"
      by (rule find_cong) (simp_all add: agree)
    have pres: "yearEarlierPeer r (enrichRow arr j x) = yearEarlierPeer r x" for j x
      by (simp add: yearEarlierPeer_def)
    show ?thesis
    proof (cases "find (yearEarlierPeer r) out")
      case None
      then have "find (yearEarlierPeer r) arr = None"
        unfolding out_def using find_enriched(1) [of "yearEarlierPeer r" arr 0 arr] pres by simp
      then show ?thesis
        using None by (simp add: r enrichRow_yoy src [unfolded r])
    next
      case (Some p)
      then obtain j y where y: "find (yearEarlierPeer r) arr = Some y" and p: "p = enrichRow arr j y"
        unfolding out_def using find_enriched(2) [of "yearEarlierPeer r" arr 0 arr p] pres by blast
      show ?thesis
        using Some y by (simp add: r enrichRow_yoy src [unfolded r] p)
    qed
  qed
  then show "\<exists>out. processFinancialData rawData = Inr out \<and>
            (\<forall>r\<in>set out.
               yoyRevenueGrowth r =
                 (case find (yearEarlierPeer r) out of
                    None \<Rightarrow> None
                  | Some p \<Rightarrow>
                      if isZero (Revenue p) then None
                      else Some (growthPercent (Revenue r) (Revenue p))) \<and>
               yoyNetIncomeGrowth r =
                 (case find (yearEarlierPeer r) out of
                    None \<Rightarrow> None
                  | Some p \<Rightarrow>
                      if isZero (Net_Income p) then None
                      else Some (growthPercent (Net_Income r) (Net_Income p))))"
    using run unfolding out_def [symmetric] by blast
next
  show "map_sum id (map yoyRevenueGrowth) (processFinancialData yoyBatch) =
           Inr [None, Some (Num 20), None]"
    unfolding yoyBatch_def by code_simp
qed

theorem yoy_growth_witness:
  "\<exists>out. processFinancialData yoyBatch = Inr out \<and>
     (\<forall>r\<in>set out.
        yoyRevenueGrowth r =
          (case find (yearEarlierPeer r) out of
             None \<Rightarrow> None
           | Some p \<Rightarrow>
               if isZero (Revenue p) then None
               else Some (growthPercent (Revenue r) (Revenue p))) \<and>
        yoyNetIncomeGrowth r =
          (case find (yearEarlierPeer r) out of
             None \<Rightarrow> None
           | Some p \<Rightarrow>
               if isZero (Net_Income p) then None
               else Some (growthPercent (Net_Income r) (Net_Income p))))"
proof -
  have "\<forall>row\<in>set yoyBatch. matchesQuarter (raw_Quarter row)"
    by (simp add: yoyBatch_def exampleRow_def matchesQuarter_def js_def isDigit_def)
  from yoy_growth [OF this, THEN conjunct1] show ?thesis .
qed

section \<open>Numeric coercion\<close>

lemma stripSign_split:
  assumes "stripSign t = (neg, u)"
  shows "\<exists>sg. t = sg @ u \<and> signPart sg"
proof (cases t)
  case Nil
  then show ?thesis using assms by (simp add: signPart_def)
next
  case (Cons c cs)
  then show ?thesis using assms by (auto simp add: signPart_def js_def split: if_splits)
qed

lemma scan_Some_prefix:
  assumes "scanStrDecimalLiteral t = Some l"
  shows "\<exists>p rest. t = p @ rest \<and> decimalLiteral p"
proof -
  obtain neg u where su: "stripSign t = (neg, u)" by (cases "stripSign t")
  then obtain sg where sg: "t = sg @ u" "signPart sg" using stripSign_split by blast
  show ?thesis
  proof (cases "take 8 u = js ''Infinity''")
    case True
    then have "u = js ''Infinity'' @ drop 8 u" by (metis append_take_drop_id)
    then have "t = (sg @ js ''Infinity'') @ drop 8 u" using sg(1) by simp
    moreover have "decimalLiteral (sg @ js ''Infinity'')"
      unfolding decimalLiteral_def unsignedLiteral_def using sg(2) by blast
    ultimately show ?thesis by blast
  next
    case False
    define ip where "ip = takeWhile isDigit u"
    define r1 where "r1 = dropWhile isDigit u"
    have u: "u = ip @ r1" by (simp add: ip_def r1_def)
    have ipd: "list_all isDigit ip" by (simp add: ip_def list_all_iff) (meson set_takeWhileD)
    show ?thesis
    proof (cases "\<exists>r. r1 = 0x2E # r")
      case True
      then obtain r where r: "r1 = 0x2E # r" by blast
      define fd where "fd = takeWhile isDigit r"
      have fdd: "list_all isDigit fd" by (simp add: fd_def list_all_iff) (meson set_takeWhileD)
      have "\<not> (ip = [] \<and> fd = [])"
        using assms False su r
        by (auto simp add: scanStrDecimalLiteral_def Let_def ip_def r1_def fd_def)
      then have "unsignedLiteral (ip @ (js ''.'' @ fd) @ [])"
        unfolding unsignedLiteral_def fractionPart_def exponentPart_def
        using ipd fdd by (intro disjI2 exI [of _ ip] exI [of _ "js ''.'' @ fd"] exI [of _ "[]"])
          (auto simp add: js_def)
      then have "decimalLiteral (sg @ ip @ js ''.'' @ fd)"
        unfolding decimalLiteral_def using sg(2) by auto
      moreover have "t = (sg @ ip @ js ''.'' @ fd) @ dropWhile isDigit r"
        using sg(1) u r by (simp add: fd_def js_def)
      ultimately show ?thesis by blast
    next
      case no_dot: False
      have "ip \<noteq> []"
        using assms False su no_dot
        by (auto simp add: scanStrDecimalLiteral_def Let_def ip_def r1_def split: list.splits if_splits)
      then have "unsignedLiteral (ip @ [] @ [])"
        unfolding unsignedLiteral_def fractionPart_def exponentPart_def
        using ipd by (intro disjI2 exI [of _ ip] exI [of _ "[]"]) auto
      then have "decimalLiteral (sg @ ip)"
        unfolding decimalLiteral_def using sg(2) by auto
      moreover have "t = (sg @ ip) @ r1" using sg(1) u by simp
      ultimately show ?thesis by blast
    qed
  qed
qed


lemma unsignedLiteral_head:
  assumes "unsignedLiteral body"
  obtains c cs where "body = c # cs" "c \<noteq> 0x2D" "c \<noteq> 0x2B"
proof -
  consider "body = js ''Infinity''"
    | ip fp ex where "body = ip @ fp @ ex" "list_all isDigit ip" "fractionPart fp"
        "1 < length fp \<or> ip \<noteq> []"
    using assms unfolding unsignedLiteral_def by blast
  then show ?thesis
  proof cases
    case 1
    then show ?thesis using that by (simp add: js_def)
  next
    case 2
    show ?thesis
    proof (cases ip)
      case Nil
      then obtain fd where "fp = js ''.'' @ fd"
        using 2(3,4) unfolding fractionPart_def by auto
      then show ?thesis using that 2(1) Nil by (simp add: js_def)
    next
      case (Cons c cs)
      then have "isDigit c" using 2(2) by simp
      then show ?thesis
        using that [of c "cs @ fp @ ex"] 2(1) Cons isDigit_not_special(2,3) by simp
    qed
  qed
qed

lemma js_dot: "js ''.'' = [0x2E]"
  by (simp add: js_def)

lemma fractionPart_long:
  assumes "fractionPart fp" "1 < length fp"
  obtains fd where "fp = 0x2E # fd" "list_all isDigit fd" "fd \<noteq> []"
proof -
  have "fp \<noteq> []" using assms(2) by (cases fp) simp_all
  then obtain fd where fd: "fp = [0x2E] @ fd" "list_all isDigit fd"
    using assms(1) unfolding fractionPart_def js_dot by blast
  have "fd \<noteq> []" using assms(2) unfolding fd(1) by (cases fd) simp_all
  then show ?thesis using that [of fd] fd by simp
qed

lemma take_Infinity: "take 8 (js ''Infinity'' @ rest) = js ''Infinity''"
  by (simp add: js_def)

lemma scan_not_Infinity:
  assumes "stripSign t = (neg, u)" "take 8 u \<noteq> js ''Infinity''"
  shows "scanStrDecimalLiteral t \<noteq> None \<longleftrightarrow>
           takeWhile isDigit u \<noteq> [] \<or>
           (\<exists>r. dropWhile isDigit u = 0x2E # r \<and> takeWhile isDigit r \<noteq> [])"
proof -
  define ip where "ip = takeWhile isDigit u"
  define r1 where "r1 = dropWhile isDigit u"
  define fp where "fp = (case r1 of [] \<Rightarrow> [] | c # r \<Rightarrow> if c = 0x2E then takeWhile isDigit r else [])"
  have "scanStrDecimalLiteral t \<noteq> None \<longleftrightarrow> \<not> (ip = [] \<and> fp = [])"
    using assms
    by (simp add: scanStrDecimalLiteral_def Let_def ip_def [symmetric] r1_def [symmetric]
          fp_def [symmetric])
  moreover have "fp \<noteq> [] \<longleftrightarrow> (\<exists>r. r1 = 0x2E # r \<and> takeWhile isDigit r \<noteq> [])"
    by (cases r1) (simp_all add: fp_def)
  ultimately show ?thesis unfolding ip_def r1_def by blast
qed

lemma scan_unsigned:
  assumes "unsignedLiteral body" "stripSign t = (neg, body @ rest)"
  shows "scanStrDecimalLiteral t \<noteq> None"
proof -
  define u where "u = body @ rest"
  have su: "stripSign t = (neg, u)" using assms(2) by (simp add: u_def)
  show ?thesis
  proof (cases "take 8 u = js ''Infinity''")
    case True
    then show ?thesis using su by (simp add: scanStrDecimalLiteral_def)
  next
    case False
    have "body \<noteq> js ''Infinity''"
    proof
      assume "body = js ''Infinity''"
      then have "take 8 u = js ''Infinity''" unfolding u_def by (simp only: take_Infinity)
      then show False using False by simp
    qed
    then obtain ip fp ex where b: "body = ip @ fp @ ex" "list_all isDigit ip" "fractionPart fp"
          "1 < length fp \<or> ip \<noteq> []"
      using assms(1) unfolding unsignedLiteral_def by blast
    show ?thesis
    proof (cases ip)
      case (Cons c cs)
      then have "isDigit c" using b(2) by simp
      then have "takeWhile isDigit u \<noteq> []" using b(1) Cons by (simp add: u_def)
      then show ?thesis unfolding scan_not_Infinity [OF su False] by blast
    next
      case Nil
      then have "1 < length fp" using b(4) by simp
      then obtain fd where fd: "fp = 0x2E # fd" "list_all isDigit fd" "fd \<noteq> []"
        using b(3) fractionPart_long by blast
      then obtain d ds where d: "fd = d # ds" "isDigit d" by (cases fd) auto
      have ue: "u = 0x2E # d # (ds @ ex @ rest)"
        using b(1) Nil fd(1) d(1) by (simp add: u_def)
      have nd: "\<not> isDigit 0x2E" by (simp add: isDigit_def)
      have "dropWhile isDigit u = 0x2E # d # (ds @ ex @ rest)"
        unfolding ue using nd by simp
      moreover have "takeWhile isDigit (d # (ds @ ex @ rest)) \<noteq> []" using d(2) by simp
      ultimately show ?thesis unfolding scan_not_Infinity [OF su False] by blast
    qed
  qed
qed

lemma scan_prefix_Some:
  assumes "decimalLiteral p"
  shows "scanStrDecimalLiteral (p @ rest) \<noteq> None"
proof -
  obtain sg body where p: "p = sg @ body" "signPart sg" "unsignedLiteral body"
    using assms unfolding decimalLiteral_def by blast
  obtain c cs where c: "body = c # cs" "c \<noteq> 0x2D" "c \<noteq> 0x2B"
    using p(3) by (rule unsignedLiteral_head)
  have "\<exists>neg. stripSign (p @ rest) = (neg, body @ rest)"
    using p(1,2) c by (auto simp add: signPart_def js_def)
  then show ?thesis using scan_unsigned [OF p(3)] by blast
qed

lemma leadingNumber_Some_iff:
  "leadingNumber s \<noteq> None \<longleftrightarrow> (\<exists>p rest. trimStart s = p @ rest \<and> decimalLiteral p)"
  unfolding leadingNumber_def using scan_Some_prefix scan_prefix_Some
  by (metis not_None_eq option.map_disc_iff)

lemma suppliedNumber_notNaN: "suppliedNumber v \<noteq> Some NaN"
  by (cases v) (auto simp add: suppliedNumber_def leadingNumber_def literalValue_not_NaN)

section \<open>Coercion of a raw field\<close>

text \<open>
  Claim C10. \<open>safeParseFloat\<close> returns the number its string begins with, after leading
  white space, whenever there is one, and the default only when there is none: a string
  begins with a number exactly when, white space skipped, a prefix of it is a decimal
  literal. \<open>12abc\<close> gives 12 and \<open>3.5 SAR\<close> gives 3.5 for every default, \<open>abc12\<close> gives
  the default. The function is total: no string makes it fail.
\<close>

theorem coercion_reads_leading_number:
  "safeParseFloat (Some s) d = (case leadingNumber s of None \<Rightarrow> d | Some n \<Rightarrow> Some n) \<and>
   (leadingNumber s \<noteq> None \<longleftrightarrow> (\<exists>p rest. trimStart s = p @ rest \<and> decimalLiteral p)) \<and>
   safeParseFloat (Some (js ''12abc'')) d = Some (Num 12) \<and>
   safeParseFloat (Some (js ''3.5 SAR'')) d = Some (Num 3.5) \<and>
   safeParseFloat (Some (js ''  12abc '')) d = Some (Num 12) \<and>
   safeParseFloat (Some (js ''abc12'')) d = d"
proof -
  have g: "safeParseFloat (Some s) d = (case leadingNumber s of None \<Rightarrow> d | Some n \<Rightarrow> Some n)"
    for s by (simp add: safeParseFloat_supplied suppliedNumber_def)
  have e1: "leadingNumber (js ''12abc'') = Some (Num 12)" by code_simp
  have e2: "leadingNumber (js ''3.5 SAR'') = Some (Num 3.5)" by code_simp
  have e3: "leadingNumber (js ''  12abc '') = Some (Num 12)" by code_simp
  have e4: "leadingNumber (js ''abc12'') = None" by code_simp
  show ?thesis
    using leadingNumber_Some_iff [of s] by (simp add: g e1 e2 e3 e4)
qed

section \<open>Finiteness of the output\<close>

text \<open>
  Claim C9, as amended. When every quarter label of the input is valid, every numeric
  field of an output row is a number or null, and the fields coerced from raw strings
  (revenue, cost of goods, operating expense, non-cash adjustments and the plan revenue,
  cost of goods, operating expense and non-cash adjustments) are never NaN. They need not
  be finite: the string \<open>Infinity\<close> is a number to \<open>safeParseFloat\<close>, which returns the
  infinity and not the default, and the row keeps it as its revenue.
\<close>

theorem coerced_fields_not_NaN:
  assumes "\<forall>row\<in>set rawData. matchesQuarter (raw_Quarter row)"
  shows "(\<exists>out. processFinancialData rawData = Inr out \<and>
            (\<forall>r\<in>set out.
               \<not> isNaN (Revenue r) \<and> \<not> isNaN (COGS r) \<and> \<not> isNaN (OPEX r) \<and>
               \<not> isNaN (Non_Cash_Adjustments r) \<and> notNaN (plan_Revenue r) \<and>
               notNaN (plan_COGS r) \<and> notNaN (plan_OPEX r) \<and>
               \<not> isNaN (plan_Non_Cash_Adjustments r))) \<and>
         safeParseFloat (Some (js ''Infinity'')) (Some (Num 0)) = Some PosInf \<and>
         map_sum id (map Revenue) (processFinancialData infinityBatch) = Inr [PosInf]"
proof (intro conjI)
  obtain out where out: "processFinancialData rawData = Inr out"
    and origin: "\<forall>r\<in>set out. \<exists>index<length rawData.
        normalizeRow (rawData ! index) index = Inr (growthCleared r)"
    using assms by (rule output_rows)
  have "\<not> isNaN (Revenue r) \<and> \<not> isNaN (COGS r) \<and> \<not> isNaN (OPEX r) \<and>
        \<not> isNaN (Non_Cash_Adjustments r) \<and> notNaN (plan_Revenue r) \<and>
        notNaN (plan_COGS r) \<and> notNaN (plan_OPEX r) \<and>
        \<not> isNaN (plan_Non_Cash_Adjustments r)"
    if rin: "r \<in> set out" for r
  proof -
    obtain index where n: "normalizeRow (rawData ! index) index = Inr (growthCleared r)"
      using origin rin by blast
    note a = normalizeRow_actuals(1-4) [OF n, unfolded growthCleared_fields]
    note p = normalizeRow_plan(1-4) [OF n, unfolded growthCleared_fields]
    have c: "(case suppliedNumber v of None \<Rightarrow> Num 0 | Some n \<Rightarrow> n) \<noteq> NaN" for v
      using suppliedNumber_notNaN [of v] by (auto split: option.splits)
    have nca: "Non_Cash_Adjustments r \<noteq> NaN" unfolding a(4) by (rule c)
    have "plan_Non_Cash_Adjustments r \<noteq> NaN"
      unfolding p(4) using nca suppliedNumber_notNaN [of "raw_Plan_Non_Cash_Adjustments (rawData ! index)"]
      by (auto split: option.splits)
    moreover have "notNaN (suppliedNumber v)" for v
      using suppliedNumber_notNaN [of v] by (auto simp add: notNaN_def isNaN_def split: option.splits)
    ultimately show ?thesis
      unfolding a p(1-3) using c nca by (simp add: isNaN_def)
  qed
  then show "\<exists>out. processFinancialData rawData = Inr out \<and>
            (\<forall>r\<in>set out.
               \<not> isNaN (Revenue r) \<and> \<not> isNaN (COGS r) \<and> \<not> isNaN (OPEX r) \<and>
               \<not> isNaN (Non_Cash_Adjustments r) \<and> notNaN (plan_Revenue r) \<and>
               notNaN (plan_COGS r) \<and> notNaN (plan_OPEX r) \<and>
               \<not> isNaN (plan_Non_Cash_Adjustments r))"
    using out by blast
next
  show "safeParseFloat (Some (js ''Infinity'')) (Some (Num 0)) = Some PosInf"
    by code_simp
next
  show "map_sum id (map Revenue) (processFinancialData infinityBatch) = Inr [PosInf]"
    unfolding infinityBatch_def by code_simp
qed

theorem coerced_fields_not_NaN_witness:
  "\<exists>out. processFinancialData infinityBatch = Inr out \<and>
     (\<forall>r\<in>set out.
        \<not> isNaN (Revenue r) \<and> \<not> isNaN (COGS r) \<and> \<not> isNaN (OPEX r) \<and>
        \<not> isNaN (Non_Cash_Adjustments r) \<and> notNaN (plan_Revenue r) \<and>
        notNaN (plan_COGS r) \<and> notNaN (plan_OPEX r) \<and>
        \<not> isNaN (plan_Non_Cash_Adjustments r))"
proof -
  have "\<forall>row\<in>set infinityBatch. matchesQuarter (raw_Quarter row)"
    by (simp add: infinityBatch_def exampleRow_def matchesQuarter_def js_def isDigit_def)
  from coerced_fields_not_NaN [OF this, THEN conjunct1] show ?thesis .
qed

text \<open>
  The claim as stated fails on the batch whose only row has the revenue field
  \<open>Infinity\<close>: its revenue is infinite and its gross margin is NaN.
\<close>

theorem infinity_counterexample:
  "map_sum id (map (\<lambda>r. (allFieldsFinite r, Revenue r, grossProfit r, grossMargin r)))
     (processFinancialData infinityBatch) = Inr [(False, PosInf, PosInf, NaN)]"
  unfolding infinityBatch_def by code_simp

end
